theory Spec2Isabelle
  imports Main "HOL-Library.Sublist" "HOL-Library.Multiset"
begin

section \<open>Data model\<close>

text \<open>
  The objects handled by \<^verbatim>\<open>controllers/pipeline/pipeline_adapter.go\<close>. Go struct
  fields keep their names behind a prefix that tells the record they belong to
  (\<open>comp_Name\<close> is \<^verbatim>\<open>Component.Name\<close>, \<open>pr_Labels\<close> is \<^verbatim>\<open>PipelineRun.Labels\<close>).
  A Go \<^verbatim>\<open>map[string]string\<close> is a partial function, a slice is a list, a
  \<^verbatim>\<open>(value, error)\<close> pair is a sum with the error on the left.
\<close>

datatype error =
    Errorf string     \<comment> \<open>an error made by \<^verbatim>\<open>fmt.Errorf\<close>, or by a helper package, with its message\<close>
  | NotFound          \<comment> \<open>the store has no such object\<close>
  | AlreadyExists     \<comment> \<open>the store refuses a create: the name is taken\<close>
  | StoreError string \<comment> \<open>any other failure of a store call (connectivity, version conflict, cancellation)\<close>
  | Panic string      \<comment> \<open>a Go run-time panic\<close>

text \<open>
  Modelled from the spec: the types of the objects are declared outside the source files
  (by the application service, the shared snapshot API, this repository's
  \<^verbatim>\<open>api/v1alpha1\<close> and the pipeline engine). Sections 3 and 6 of the spec list what
  they carry; the records have the fields that the adapter reads or writes.
\<close>

datatype ConditionStatus = ConditionTrue | ConditionFalse | ConditionUnknown

record Condition =
  cond_Type :: string
  cond_Status :: ConditionStatus
  cond_Reason :: string
  cond_Message :: string

record Application =
  app_Name :: string
  app_Namespace :: string

record Component =
  comp_Name :: string
  comp_Namespace :: string
  comp_Application :: string      \<comment> \<open>\<^verbatim>\<open>Spec.Application\<close>\<close>
  comp_ContainerImage :: string   \<comment> \<open>\<^verbatim>\<open>Status.ContainerImage\<close>\<close>

record ApplicationSnapshotComponent =
  Name :: string
  ContainerImage :: string

record ApplicationSnapshot =
  snap_Name :: string
  snap_GenerateName :: string
  snap_Namespace :: string
  snap_Labels :: "string \<rightharpoonup> string"
  snap_Application :: string                          \<comment> \<open>\<^verbatim>\<open>Spec.Application\<close>\<close>
  snap_Components :: "ApplicationSnapshotComponent list"  \<comment> \<open>\<^verbatim>\<open>Spec.Components\<close>\<close>
  snap_Conditions :: "Condition list"                 \<comment> \<open>\<^verbatim>\<open>Status.Conditions\<close>\<close>

record IntegrationTestScenario =
  its_Name :: string
  its_Namespace :: string
  its_Labels :: "string \<rightharpoonup> string"
  its_Application :: string       \<comment> \<open>\<^verbatim>\<open>Spec.Application\<close>\<close>

record TaskRunResult =
  trr_Name :: string
  trr_Value :: string

record PipelineRunTaskRunStatus =
  PipelineTaskName :: string
  TaskRunResults :: "TaskRunResult list"   \<comment> \<open>\<^verbatim>\<open>Status.TaskRunResults\<close>\<close>

text \<open>
  A PipelineRun has a succeeded condition, a completion time and the named results of its
  tasks (section 6 of the spec). \<^verbatim>\<open>Status.TaskRuns\<close> is a Go map, and \<^verbatim>\<open>range\<close>
  visits a map in an order the language leaves open: \<open>pr_TaskRuns\<close> lists the entries in
  the order of the visit, so every statement proved for all lists holds for every order.
\<close>

record PipelineRun =
  pr_Name :: string
  pr_Namespace :: string
  pr_Labels :: "string \<rightharpoonup> string"
  pr_Conditions :: "Condition list"     \<comment> \<open>\<^verbatim>\<open>Status.Conditions\<close>\<close>
  pr_CompletionTime :: int              \<comment> \<open>\<^verbatim>\<open>Status.CompletionTime.Time\<close>, as an instant\<close>
  pr_TaskRuns :: "(string \<times> PipelineRunTaskRunStatus) list"   \<comment> \<open>\<^verbatim>\<open>Status.TaskRuns\<close>\<close>

text \<open>
  Package \<^verbatim>\<open>tekton\<close> of this repository is not among the source files; the adapter
  calls five of its functions. They are taken as parameters, gathered in one record.
\<close>

record tekton =
  IsBuildPipelineRun :: "PipelineRun \<Rightarrow> bool"
  IsIntegrationPipelineRun :: "PipelineRun \<Rightarrow> bool"
  GetTypeFromPipelineRun :: "PipelineRun \<Rightarrow> error + string"
  GetOutputImage :: "PipelineRun \<Rightarrow> error + string"
  GetOutputImageDigest :: "PipelineRun \<Rightarrow> error + string"

text \<open>The Adapter's fields, without the logger, the client and the context.\<close>

record Adapter =
  pipelineRun :: PipelineRun
  component :: Component
  application :: Application

section \<open>Strings\<close>

text \<open>
  Go's \<^verbatim>\<open>strings.Split(s, sep)\<close>: the substrings between the non-overlapping
  occurrences of \<open>sep\<close>, found from the left; with an empty \<open>sep\<close> the string is cut
  after every byte. \<open>splitAt sep acc s\<close> scans \<open>s\<close> with the bytes of the current
  substring in \<open>acc\<close>, latest first.
\<close>

function splitAt :: "string \<Rightarrow> string \<Rightarrow> string \<Rightarrow> string list" where
  "splitAt sep acc [] = [rev acc]"
| "splitAt sep acc (c # cs) =
     (if sep \<noteq> [] \<and> prefix sep (c # cs)
      then rev acc # splitAt sep [] (drop (length sep) (c # cs))
      else splitAt sep (c # acc) cs)"
  by pat_completeness auto
termination
  by (relation "measure (\<lambda>(sep, acc, s). length s)") auto

definition Split :: "string \<Rightarrow> string \<Rightarrow> string list" where
  "Split s sep = (if sep = [] then map (\<lambda>c. [c]) s else splitAt sep [] s)"

section \<open>The image pull spec\<close>

text \<open>
  \<^verbatim>\<open>getImagePullSpecFromPipelineRun\<close>. Indexing a slice at 0 panics in Go when the
  slice is empty; the model keeps that branch.
\<close>

definition getImagePullSpecFromPipelineRun :: "tekton \<Rightarrow> PipelineRun \<Rightarrow> error + string" where
  "getImagePullSpecFromPipelineRun tk pr =
     (case GetOutputImage tk pr of
        Inl err \<Rightarrow> Inl err
      | Inr outputImage \<Rightarrow>
          (case GetOutputImageDigest tk pr of
             Inl err \<Rightarrow> Inl err
           | Inr imageDigest \<Rightarrow>
               (case Split outputImage '':'' of
                  [] \<Rightarrow> Inl (Panic ''index out of range [0] with length 0'')
                | s0 # _ \<Rightarrow> Inr (s0 @ ''@'' @ imageDigest))))"

section \<open>Outcome of one integration PipelineRun\<close>

text \<open>
  What \<^verbatim>\<open>json.Unmarshal\<close> stores in a \<^verbatim>\<open>map[string]interface{}\<close>: nil, a bool, a
  float64 (kept here as the text of the number), a string, a slice or a map.
\<close>

datatype json_value =
    JNull
  | JBool bool
  | JNumber string
  | JString string
  | JArray "json_value list"
  | JObject "(string \<times> json_value) list"

text \<open>
  \<^verbatim>\<open>json.Unmarshal\<close> into a \<^verbatim>\<open>map[string]interface{}\<close> belongs to Go's standard
  library; it is a parameter \<open>unmarshal\<close> of the functions that decode a task result:
  it gives an error, or the decoded map.
\<close>

type_synonym unmarshal = "string \<Rightarrow> error + (string \<rightharpoonup> json_value)"

text \<open>
  \<^verbatim>\<open>calculateIntegrationPipelineRunOutcome\<close>. The inner loop either returns from the
  whole function (\<open>Some\<close> of the returned value) or runs to its end (\<open>None\<close>).
  Indexing the decoded map at a missing key gives Go's nil interface, which is not equal to
  a string; so does a JSON null.
\<close>

fun scanTaskRunResults :: "unmarshal \<Rightarrow> TaskRunResult list \<Rightarrow> (error + bool) option" where
  "scanTaskRunResults U [] = None"
| "scanTaskRunResults U (taskRunResult # rest) =
     (if trr_Name taskRunResult = ''HACBS_TEST_OUTPUT''
      then (case U (trr_Value taskRunResult) of
              Inl err \<Rightarrow> Some (Inl err)
            | Inr testOutput \<Rightarrow>
                if testOutput ''result'' \<noteq> Some (JString ''SUCCESS'')
                   \<and> testOutput ''result'' \<noteq> Some (JString ''SKIPPED'')
                then Some (Inr False)
                else scanTaskRunResults U rest)
      else scanTaskRunResults U rest)"

fun scanTaskRuns :: "unmarshal \<Rightarrow> (string \<times> PipelineRunTaskRunStatus) list \<Rightarrow> error + bool" where
  "scanTaskRuns U [] = Inr True"
| "scanTaskRuns U (taskRun # rest) =
     (case scanTaskRunResults U (TaskRunResults (snd taskRun)) of
        Some returned \<Rightarrow> returned
      | None \<Rightarrow> scanTaskRuns U rest)"

definition calculateIntegrationPipelineRunOutcome :: "unmarshal \<Rightarrow> PipelineRun \<Rightarrow> error + bool" where
  "calculateIntegrationPipelineRunOutcome U pr = scanTaskRuns U (pr_TaskRuns pr)"

text \<open>
  \<^verbatim>\<open>determineIfAllIntegrationPipelinesPassed\<close>: the loop carries
  \<open>allIntegrationPipelineRunsPassed\<close> and returns at the first error.
\<close>

fun determineLoop :: "unmarshal \<Rightarrow> bool \<Rightarrow> PipelineRun list \<Rightarrow> error + bool" where
  "determineLoop U allPassed [] = Inr allPassed"
| "determineLoop U allPassed (integrationPipelineRun # rest) =
     (case calculateIntegrationPipelineRunOutcome U integrationPipelineRun of
        Inl err \<Rightarrow> Inl err
      | Inr pipelineRunOutcome \<Rightarrow>
          determineLoop U (if \<not> pipelineRunOutcome then False else allPassed) rest)"

definition determineIfAllIntegrationPipelinesPassed ::
    "unmarshal \<Rightarrow> PipelineRun list \<Rightarrow> error + bool" where
  "determineIfAllIntegrationPipelinesPassed U integrationPipelineRuns =
     determineLoop U True integrationPipelineRuns"

section \<open>Comparing snapshots\<close>

text \<open>\<^verbatim>\<open>compareApplicationSnapshots\<close>, with its two nested loops as folds over the slices.\<close>

definition compareApplicationSnapshots :: "ApplicationSnapshot \<Rightarrow> ApplicationSnapshot \<Rightarrow> bool" where
  "compareApplicationSnapshots expectedApplicationSnapshot foundApplicationSnapshot =
     (let snapshotsHaveSameNumberOfImages =
            (length (snap_Components expectedApplicationSnapshot)
               = length (snap_Components foundApplicationSnapshot));
          allImagesMatch =
            fold (\<lambda>component1 allImagesMatch.
                    let foundImage =
                          fold (\<lambda>component2 foundImage.
                                  if component2 = component1 then True else foundImage)
                               (snap_Components foundApplicationSnapshot) False
                    in if \<not> foundImage then False else allImagesMatch)
                 (snap_Components expectedApplicationSnapshot) True
      in snapshotsHaveSameNumberOfImages \<and> allImagesMatch)"

section \<open>The object store\<close>

text \<open>
  Modelled from the spec: the Object Store Client of section 6 (the controller-runtime
  client and the cluster behind it) is outside this repository. The cluster holds the
  objects of each kind. A call may fail for reasons of its own: \<open>failures\<close> lists what
  the coming calls will meet, \<open>Some e\<close> for a call that fails with \<open>e\<close>, and a call
  past the end of the list succeeds. \<open>suffixes\<close> are the random suffixes the store will
  append to \<^verbatim>\<open>GenerateName\<close> at the coming creates.
\<close>

record cluster =
  Components :: "Component list"
  ApplicationSnapshots :: "ApplicationSnapshot list"
  IntegrationTestScenarios :: "IntegrationTestScenario list"
  PipelineRuns :: "PipelineRun list"
  failures :: "error option list"
  suffixes :: "string list"

definition client_call :: "cluster \<Rightarrow> error option \<times> cluster" where
  "client_call c =
     (case failures c of
        [] \<Rightarrow> (None, c)
      | f # fs \<Rightarrow> (f, c\<lparr>failures := fs\<rparr>))"

text \<open>
  The label selectors of the store's library (package \<^verbatim>\<open>labels\<close>, outside this
  repository), for the operators on sets of strings. A requirement \<open>NotIn\<close> is met by
  labels that lack the key and by labels whose value for the key is not among the listed
  values: the rule that section 4.3 of the spec gives for the optional label.
\<close>

datatype Operator = OpIn | OpNotIn | OpEquals | OpNotEquals | OpExists | OpDoesNotExist

record Requirement =
  req_key :: string
  req_operator :: Operator
  req_strValues :: "string list"

text \<open>
  \<^verbatim>\<open>labels.NewRequirement\<close> checks the number of values against the operator (the
  syntax checks of the key and of the values are left out: the adapter passes constants
  that pass them).
\<close>

definition NewRequirement :: "string \<Rightarrow> Operator \<Rightarrow> string list \<Rightarrow> error + Requirement" where
  "NewRequirement key op vals =
     (if (op = OpIn \<or> op = OpNotIn) \<and> vals = []
      then Inl (Errorf ''for 'in', 'notin' operators, values set can't be empty'')
      else if (op = OpEquals \<or> op = OpNotEquals) \<and> length vals \<noteq> 1
      then Inl (Errorf ''exact-match compatibility requires one single value'')
      else if (op = OpExists \<or> op = OpDoesNotExist) \<and> vals \<noteq> []
      then Inl (Errorf ''values set must be empty for exists and does not exist'')
      else Inr \<lparr>req_key = key, req_operator = op, req_strValues = vals\<rparr>)"

fun Matches :: "Requirement \<Rightarrow> (string \<rightharpoonup> string) \<Rightarrow> bool" where
  "Matches r ls =
     (case req_operator r of
        OpIn \<Rightarrow> (case ls (req_key r) of None \<Rightarrow> False | Some v \<Rightarrow> v \<in> set (req_strValues r))
      | OpEquals \<Rightarrow> (case ls (req_key r) of None \<Rightarrow> False | Some v \<Rightarrow> v \<in> set (req_strValues r))
      | OpNotIn \<Rightarrow> (case ls (req_key r) of None \<Rightarrow> True | Some v \<Rightarrow> v \<notin> set (req_strValues r))
      | OpNotEquals \<Rightarrow> (case ls (req_key r) of None \<Rightarrow> True | Some v \<Rightarrow> v \<notin> set (req_strValues r))
      | OpExists \<Rightarrow> ls (req_key r) \<noteq> None
      | OpDoesNotExist \<Rightarrow> ls (req_key r) = None)"

text \<open>\<^verbatim>\<open>client.MatchingLabels\<close>: every listed label is there with the listed value.\<close>

definition MatchingLabels :: "(string \<times> string) list \<Rightarrow> (string \<rightharpoonup> string) \<Rightarrow> bool" where
  "MatchingLabels want ls = list_all (\<lambda>(k, v). ls k = Some v) want"

definition client_List_Components ::
    "cluster \<Rightarrow> string \<Rightarrow> string \<Rightarrow> (error + Component list) \<times> cluster" where
  "client_List_Components c namespace app =
     (case client_call c of
        (Some err, c') \<Rightarrow> (Inl err, c')
      | (None, c') \<Rightarrow>
          (Inr (filter (\<lambda>x. comp_Namespace x = namespace \<and> comp_Application x = app)
                  (Components c')), c'))"

definition client_List_ApplicationSnapshots ::
    "cluster \<Rightarrow> string \<Rightarrow> string \<Rightarrow> (error + ApplicationSnapshot list) \<times> cluster" where
  "client_List_ApplicationSnapshots c namespace app =
     (case client_call c of
        (Some err, c') \<Rightarrow> (Inl err, c')
      | (None, c') \<Rightarrow>
          (Inr (filter (\<lambda>x. snap_Namespace x = namespace \<and> snap_Application x = app)
                  (ApplicationSnapshots c')), c'))"

definition client_List_IntegrationTestScenarios ::
    "cluster \<Rightarrow> string \<Rightarrow> string \<Rightarrow> Requirement list
       \<Rightarrow> (error + IntegrationTestScenario list) \<times> cluster" where
  "client_List_IntegrationTestScenarios c namespace app labelSelector =
     (case client_call c of
        (Some err, c') \<Rightarrow> (Inl err, c')
      | (None, c') \<Rightarrow>
          (Inr (filter (\<lambda>x. its_Namespace x = namespace \<and> its_Application x = app
                             \<and> list_all (\<lambda>r. Matches r (its_Labels x)) labelSelector)
                  (IntegrationTestScenarios c')), c'))"

definition client_List_PipelineRuns ::
    "cluster \<Rightarrow> string \<Rightarrow> (string \<times> string) list \<Rightarrow> (error + PipelineRun list) \<times> cluster" where
  "client_List_PipelineRuns c namespace want =
     (case client_call c of
        (Some err, c') \<Rightarrow> (Inl err, c')
      | (None, c') \<Rightarrow>
          (Inr (filter (\<lambda>x. pr_Namespace x = namespace \<and> MatchingLabels want (pr_Labels x))
                  (PipelineRuns c')), c'))"

definition client_Get_ApplicationSnapshot ::
    "cluster \<Rightarrow> string \<Rightarrow> string \<Rightarrow> (error + ApplicationSnapshot) \<times> cluster" where
  "client_Get_ApplicationSnapshot c namespace name =
     (case client_call c of
        (Some err, c') \<Rightarrow> (Inl err, c')
      | (None, c') \<Rightarrow>
          (case find (\<lambda>x. snap_Namespace x = namespace \<and> snap_Name x = name)
                  (ApplicationSnapshots c') of
             None \<Rightarrow> (Inl NotFound, c')
           | Some snapshot \<Rightarrow> (Inr snapshot, c')))"

text \<open>
  Create: an object with no name gets \<^verbatim>\<open>GenerateName\<close> and the next suffix; a name
  already taken in the namespace is refused; the object is stored after the others.
\<close>

definition client_Create_ApplicationSnapshot ::
    "cluster \<Rightarrow> ApplicationSnapshot \<Rightarrow> (error + ApplicationSnapshot) \<times> cluster" where
  "client_Create_ApplicationSnapshot c snapshot =
     (case client_call c of
        (Some err, c') \<Rightarrow> (Inl err, c')
      | (None, c') \<Rightarrow>
          (let named =
                 (if snap_Name snapshot = []
                  then snapshot\<lparr>snap_Name := snap_GenerateName snapshot
                                     @ (case suffixes c' of [] \<Rightarrow> [] | s # _ \<Rightarrow> s)\<rparr>
                  else snapshot);
               c'' = (if snap_Name snapshot = [] then c'\<lparr>suffixes := tl (suffixes c')\<rparr> else c')
           in if \<exists>x \<in> set (ApplicationSnapshots c'').
                   snap_Namespace x = snap_Namespace named \<and> snap_Name x = snap_Name named
              then (Inl AlreadyExists, c'')
              else (Inr named,
                    c''\<lparr>ApplicationSnapshots := ApplicationSnapshots c'' @ [named]\<rparr>)))"

text \<open>
  \<^verbatim>\<open>client.Status().Patch\<close> of a snapshot, with a merge patch from a copy taken before
  the conditions were set: the stored object of that name takes the new conditions.
\<close>

definition client_Status_Patch_ApplicationSnapshot ::
    "cluster \<Rightarrow> ApplicationSnapshot \<Rightarrow> error option \<times> cluster" where
  "client_Status_Patch_ApplicationSnapshot c snapshot =
     (case client_call c of
        (Some err, c') \<Rightarrow> (Some err, c')
      | (None, c') \<Rightarrow>
          (if \<exists>x \<in> set (ApplicationSnapshots c').
                snap_Namespace x = snap_Namespace snapshot \<and> snap_Name x = snap_Name snapshot
           then (None,
                 c'\<lparr>ApplicationSnapshots :=
                      map (\<lambda>x. if snap_Namespace x = snap_Namespace snapshot
                                   \<and> snap_Name x = snap_Name snapshot
                                then x\<lparr>snap_Conditions := snap_Conditions snapshot\<rparr>
                                else x)
                          (ApplicationSnapshots c')\<rparr>)
           else (Some NotFound, c')))"

text \<open>\<^verbatim>\<open>client.Status().Update\<close> of a PipelineRun: the stored object takes its status.\<close>

definition client_Status_Update_PipelineRun ::
    "cluster \<Rightarrow> PipelineRun \<Rightarrow> error option \<times> cluster" where
  "client_Status_Update_PipelineRun c pr =
     (case client_call c of
        (Some err, c') \<Rightarrow> (Some err, c')
      | (None, c') \<Rightarrow>
          (if \<exists>x \<in> set (PipelineRuns c').
                pr_Namespace x = pr_Namespace pr \<and> pr_Name x = pr_Name pr
           then (None,
                 c'\<lparr>PipelineRuns :=
                      map (\<lambda>x. if pr_Namespace x = pr_Namespace pr \<and> pr_Name x = pr_Name pr
                                then x\<lparr>pr_Conditions := pr_Conditions pr,
                                       pr_CompletionTime := pr_CompletionTime pr,
                                       pr_TaskRuns := pr_TaskRuns pr\<rparr>
                                else x)
                          (PipelineRuns c')\<rparr>)
           else (Some NotFound, c')))"

section \<open>Results of an operation\<close>

text \<open>
  Modelled from the spec: package \<^verbatim>\<open>results\<close> of this repository is not among the
  source files. Section 4.1 gives the three results an operation returns: continue, retry
  with the error, and retry or stop after a status write, which carries that write's
  error when it failed.
\<close>

datatype OperationResult =
    ContinueProcessing
  | RequeueWithError error
  | RequeueOnErrorOrStop "error option"

section \<open>The adapter's reads\<close>

text \<open>Indexing a Go map at a missing key gives the zero value, the empty string.\<close>

definition label :: "(string \<rightharpoonup> string) \<Rightarrow> string \<Rightarrow> string" where
  "label ls k = (case ls k of None \<Rightarrow> [] | Some v \<Rightarrow> v)"

definition updateStatus :: "Adapter \<Rightarrow> cluster \<Rightarrow> error option \<times> cluster" where
  "updateStatus a c = client_Status_Update_PipelineRun c (pipelineRun a)"

definition getApplicationSnapshotFromPipelineRun ::
    "cluster \<Rightarrow> PipelineRun \<Rightarrow> string \<Rightarrow> (error + ApplicationSnapshot) \<times> cluster" where
  "getApplicationSnapshotFromPipelineRun c pr pipelineType =
     (let snapshotLabel = pipelineType @ ''.appstudio.openshift.io/snapshot''
      in case pr_Labels pr snapshotLabel of
           Some snapshotName \<Rightarrow> client_Get_ApplicationSnapshot c (pr_Namespace pr) snapshotName
         | None \<Rightarrow> (Inl (Errorf ''the pipeline has no snapshot associated with it''), c))"

definition getAllApplicationSnapshots ::
    "Adapter \<Rightarrow> cluster \<Rightarrow> (error + ApplicationSnapshot list) \<times> cluster" where
  "getAllApplicationSnapshots a c =
     client_List_ApplicationSnapshots c (app_Namespace (application a)) (app_Name (application a))"

definition getAllApplicationComponents ::
    "cluster \<Rightarrow> Application \<Rightarrow> (error + Component list) \<times> cluster" where
  "getAllApplicationComponents c app =
     client_List_Components c (app_Namespace app) (app_Name app)"

definition getRequiredIntegrationTestScenariosForApplication ::
    "cluster \<Rightarrow> Application \<Rightarrow> (error + IntegrationTestScenario list) \<times> cluster" where
  "getRequiredIntegrationTestScenariosForApplication c app =
     (case NewRequirement ''test.appstudio.openshift.io/optional'' OpNotIn [''false''] of
        Inl err \<Rightarrow> (Inl err, c)
      | Inr labelRequirement \<Rightarrow>
          client_List_IntegrationTestScenarios c (app_Namespace app) (app_Name app)
            [labelRequirement])"

text \<open>
  Library code: \<^verbatim>\<open>Status.GetCondition(t)\<close> is the condition of type \<open>t\<close>, or nil;
  \<^verbatim>\<open>IsTrue\<close> of nil is false.
\<close>

definition GetCondition :: "Condition list \<Rightarrow> string \<Rightarrow> Condition option" where
  "GetCondition conds t = find (\<lambda>x. cond_Type x = t) conds"

definition IsTrue :: "Condition option \<Rightarrow> bool" where
  "IsTrue x = (case x of None \<Rightarrow> False | Some cond \<Rightarrow> cond_Status cond = ConditionTrue)"

text \<open>
  \<^verbatim>\<open>getLatestPipelineRunForApplicationSnapshotAndScenario\<close>: the loop carries
  \<open>latestIntegrationPipelineRun\<close>, nil at first.
\<close>

fun latestLoop :: "PipelineRun option \<Rightarrow> PipelineRun list \<Rightarrow> PipelineRun option" where
  "latestLoop latest [] = latest"
| "latestLoop latest (pr # rest) =
     latestLoop
       (if IsTrue (GetCondition (pr_Conditions pr) ''Succeeded'')
        then (case latest of
                None \<Rightarrow> Some pr
              | Some l \<Rightarrow> if pr_CompletionTime pr > pr_CompletionTime l then Some pr else latest)
        else latest)
       rest"

definition getLatestPipelineRunForApplicationSnapshotAndScenario ::
    "Adapter \<Rightarrow> cluster \<Rightarrow> ApplicationSnapshot \<Rightarrow> IntegrationTestScenario
       \<Rightarrow> (error + PipelineRun option) \<times> cluster" where
  "getLatestPipelineRunForApplicationSnapshotAndScenario a c applicationSnapshot scenario =
     (case client_List_PipelineRuns c (app_Namespace (application a))
             [(''pipelines.appstudio.openshift.io/type'', ''test''),
              (''test.appstudio.openshift.io/snapshot'', snap_Name applicationSnapshot),
              (''test.appstudio.openshift.io/scenario'', its_Name scenario)] of
        (Inl err, c') \<Rightarrow> (Inl err, c')
      | (Inr items, c') \<Rightarrow> (Inr (latestLoop None items), c'))"

text \<open>
  \<^verbatim>\<open>getAllPipelineRunsForApplicationSnapshot\<close>: the loop carries the slice
  \<open>integrationPipelineRuns\<close> and the cluster.
\<close>

fun getAllLoop ::
    "Adapter \<Rightarrow> ApplicationSnapshot \<Rightarrow> PipelineRun list \<Rightarrow> cluster
       \<Rightarrow> IntegrationTestScenario list \<Rightarrow> (error + PipelineRun list) \<times> cluster" where
  "getAllLoop a applicationSnapshot integrationPipelineRuns c [] =
     (Inr integrationPipelineRuns, c)"
| "getAllLoop a applicationSnapshot integrationPipelineRuns c (scenario # rest) =
     (if label (pr_Labels (pipelineRun a)) ''test.appstudio.openshift.io/scenario''
           \<noteq> its_Name scenario
      then (case getLatestPipelineRunForApplicationSnapshotAndScenario a c
                   applicationSnapshot scenario of
              (Inl err, c') \<Rightarrow> (Inl err, c')
            | (Inr None, c') \<Rightarrow>
                getAllLoop a applicationSnapshot integrationPipelineRuns c' rest
            | (Inr (Some integrationPipelineRun), c') \<Rightarrow>
                getAllLoop a applicationSnapshot
                  (integrationPipelineRuns @ [integrationPipelineRun]) c' rest)
      else getAllLoop a applicationSnapshot (integrationPipelineRuns @ [pipelineRun a]) c rest)"

definition getAllPipelineRunsForApplicationSnapshot ::
    "Adapter \<Rightarrow> cluster \<Rightarrow> ApplicationSnapshot \<Rightarrow> IntegrationTestScenario list
       \<Rightarrow> (error + PipelineRun list) \<times> cluster" where
  "getAllPipelineRunsForApplicationSnapshot a c applicationSnapshot integrationTestScenarios =
     getAllLoop a applicationSnapshot [] c integrationTestScenarios"

section \<open>Preparing, finding and creating a snapshot\<close>

text \<open>
  \<^verbatim>\<open>prepareApplicationSnapshotForPipelineRun\<close>: the loop carries the slice
  \<open>components\<close> and returns at the first error of the pull spec. The new object has no
  labels, so the branch that sets its labels leaves the one label \<open>component\<close>.
\<close>

fun prepareLoop ::
    "tekton \<Rightarrow> PipelineRun \<Rightarrow> Component \<Rightarrow> ApplicationSnapshotComponent list
       \<Rightarrow> Component list \<Rightarrow> error + ApplicationSnapshotComponent list" where
  "prepareLoop tk pr cmpnt components [] = Inr components"
| "prepareLoop tk pr cmpnt components (applicationComponent # rest) =
     (if comp_Name applicationComponent = comp_Name cmpnt
      then (case getImagePullSpecFromPipelineRun tk pr of
              Inl err \<Rightarrow> Inl err
            | Inr pullSpec \<Rightarrow>
                prepareLoop tk pr cmpnt
                  (components @ [\<lparr>Name = comp_Name applicationComponent,
                                  ContainerImage = pullSpec\<rparr>]) rest)
      else prepareLoop tk pr cmpnt
             (components @ [\<lparr>Name = comp_Name applicationComponent,
                             ContainerImage = comp_ContainerImage applicationComponent\<rparr>]) rest)"

definition prepareApplicationSnapshotForPipelineRun ::
    "tekton \<Rightarrow> Adapter \<Rightarrow> cluster \<Rightarrow> PipelineRun \<Rightarrow> Component \<Rightarrow> Application
       \<Rightarrow> (error + ApplicationSnapshot) \<times> cluster" where
  "prepareApplicationSnapshotForPipelineRun tk a c pr cmpnt app =
     (case getAllApplicationComponents c app of
        (Inl err, c') \<Rightarrow>
          (Inl (Errorf (''failed to get all Application Components for Application ''
                          @ app_Name (application a))), c')
      | (Inr applicationComponents, c') \<Rightarrow>
          (case prepareLoop tk pr cmpnt [] applicationComponents of
             Inl err \<Rightarrow> (Inl err, c')
           | Inr components \<Rightarrow>
               (Inr \<lparr>snap_Name = [],
                     snap_GenerateName = app_Name app @ ''-'',
                     snap_Namespace = app_Namespace app,
                     snap_Labels = [''component'' \<mapsto> comp_Name (component a)],
                     snap_Application = app_Name app,
                     snap_Components = components,
                     snap_Conditions = []\<rparr>, c')))"

definition createApplicationSnapshotForPipelineRun ::
    "tekton \<Rightarrow> Adapter \<Rightarrow> cluster \<Rightarrow> PipelineRun \<Rightarrow> Component \<Rightarrow> Application
       \<Rightarrow> (error + ApplicationSnapshot) \<times> cluster" where
  "createApplicationSnapshotForPipelineRun tk a c pr cmpnt app =
     (case prepareApplicationSnapshotForPipelineRun tk a c pr cmpnt app of
        (Inl err, c') \<Rightarrow> (Inl err, c')
      | (Inr applicationSnapshot, c') \<Rightarrow> client_Create_ApplicationSnapshot c' applicationSnapshot)"

definition findMatchingApplicationSnapshot ::
    "tekton \<Rightarrow> Adapter \<Rightarrow> cluster \<Rightarrow> (error + ApplicationSnapshot option) \<times> cluster" where
  "findMatchingApplicationSnapshot tk a c =
     (case prepareApplicationSnapshotForPipelineRun tk a c
             (pipelineRun a) (component a) (application a) of
        (Inl err, c') \<Rightarrow> (Inl err, c')
      | (Inr expectedApplicationSnapshot, c') \<Rightarrow>
          (case getAllApplicationSnapshots a c' of
             (Inl err, c'') \<Rightarrow> (Inl err, c'')
           | (Inr allApplicationSnapshots, c'') \<Rightarrow>
               (Inr (find (compareApplicationSnapshots expectedApplicationSnapshot)
                       allApplicationSnapshots), c'')))"

section \<open>Writing the verdict\<close>

text \<open>
  \<^verbatim>\<open>meta.SetStatusCondition\<close> (library code): the first condition of the same type
  takes the new status, reason and message; with none of that type the new condition is
  appended. Transition times are left out.
\<close>

fun SetStatusCondition :: "Condition list \<Rightarrow> Condition \<Rightarrow> Condition list" where
  "SetStatusCondition [] newCondition = [newCondition]"
| "SetStatusCondition (existing # rest) newCondition =
     (if cond_Type existing = cond_Type newCondition
      then existing\<lparr>cond_Status := cond_Status newCondition,
                    cond_Reason := cond_Reason newCondition,
                    cond_Message := cond_Message newCondition\<rparr> # rest
      else existing # SetStatusCondition rest newCondition)"

definition markSnapshotAsPassed ::
    "cluster \<Rightarrow> ApplicationSnapshot \<Rightarrow> string \<Rightarrow> (error + ApplicationSnapshot) \<times> cluster" where
  "markSnapshotAsPassed c applicationSnapshot message =
     (let marked = applicationSnapshot\<lparr>snap_Conditions :=
            SetStatusCondition (snap_Conditions applicationSnapshot)
              \<lparr>cond_Type = ''HACBSTestSucceeded'', cond_Status = ConditionTrue,
               cond_Reason = ''Passed'', cond_Message = message\<rparr>\<rparr>
      in case client_Status_Patch_ApplicationSnapshot c marked of
           (Some err, c') \<Rightarrow> (Inl err, c')
         | (None, c') \<Rightarrow> (Inr marked, c'))"

definition markSnapshotAsFailed ::
    "cluster \<Rightarrow> ApplicationSnapshot \<Rightarrow> string \<Rightarrow> (error + ApplicationSnapshot) \<times> cluster" where
  "markSnapshotAsFailed c applicationSnapshot message =
     (let marked = applicationSnapshot\<lparr>snap_Conditions :=
            SetStatusCondition (snap_Conditions applicationSnapshot)
              \<lparr>cond_Type = ''HACBSTestSucceeded'', cond_Status = ConditionFalse,
               cond_Reason = ''Failed'', cond_Message = message\<rparr>\<rparr>
      in case client_Status_Patch_ApplicationSnapshot c marked of
           (Some err, c') \<Rightarrow> (Inl err, c')
         | (None, c') \<Rightarrow> (Inr marked, c'))"

section \<open>The two operations\<close>

definition EnsureApplicationSnapshotExists ::
    "tekton \<Rightarrow> Adapter \<Rightarrow> cluster \<Rightarrow> OperationResult \<times> cluster" where
  "EnsureApplicationSnapshotExists tk a c =
     (if \<not> IsBuildPipelineRun tk (pipelineRun a) then (ContinueProcessing, c)
      else case findMatchingApplicationSnapshot tk a c of
             (Inl err, c1) \<Rightarrow> (RequeueWithError err, c1)
           | (Inr (Some existingApplicationSnapshot), c1) \<Rightarrow> (ContinueProcessing, c1)
           | (Inr None, c1) \<Rightarrow>
               (case createApplicationSnapshotForPipelineRun tk a c1
                       (pipelineRun a) (component a) (application a) of
                  (Inl err, c2) \<Rightarrow>
                    (case updateStatus a c2 of (written, c3) \<Rightarrow> (RequeueOnErrorOrStop written, c3))
                | (Inr newApplicationSnapshot, c2) \<Rightarrow> (ContinueProcessing, c2)))"

text \<open>
  \<^verbatim>\<open>EnsureApplicationSnapshotPassedAllTests\<close>, in two parts: \<open>writeVerdict\<close> is the
  code after the completeness check (from the call of
  \<^verbatim>\<open>determineIfAllIntegrationPipelinesPassed\<close> on).
\<close>

definition writeVerdict ::
    "unmarshal \<Rightarrow> Adapter \<Rightarrow> cluster \<Rightarrow> ApplicationSnapshot \<Rightarrow> PipelineRun list
       \<Rightarrow> OperationResult \<times> cluster" where
  "writeVerdict U a c existingApplicationSnapshot integrationPipelineRuns =
     (case determineIfAllIntegrationPipelinesPassed U integrationPipelineRuns of
        Inl err \<Rightarrow>
          (case updateStatus a c of (written, c') \<Rightarrow> (RequeueOnErrorOrStop written, c'))
      | Inr allIntegrationPipelineRunsPassed \<Rightarrow>
          (if allIntegrationPipelineRunsPassed
           then (case markSnapshotAsPassed c existingApplicationSnapshot
                        ''All Integration Pipeline tests passed'' of
                   (Inl err, c') \<Rightarrow>
                     (case updateStatus a c' of
                        (written, c'') \<Rightarrow> (RequeueOnErrorOrStop written, c''))
                 | (Inr marked, c') \<Rightarrow> (ContinueProcessing, c'))
           else (case markSnapshotAsFailed c existingApplicationSnapshot
                        ''Some Integration pipeline tests failed'' of
                   (Inl err, c') \<Rightarrow>
                     (case updateStatus a c' of
                        (written, c'') \<Rightarrow> (RequeueOnErrorOrStop written, c''))
                 | (Inr marked, c') \<Rightarrow> (ContinueProcessing, c'))))"

definition EnsureApplicationSnapshotPassedAllTests ::
    "tekton \<Rightarrow> unmarshal \<Rightarrow> Adapter \<Rightarrow> cluster \<Rightarrow> OperationResult \<times> cluster" where
  "EnsureApplicationSnapshotPassedAllTests tk U a c =
     (if \<not> IsIntegrationPipelineRun tk (pipelineRun a) then (ContinueProcessing, c)
      else case GetTypeFromPipelineRun tk (pipelineRun a) of
             Inl err \<Rightarrow> (RequeueWithError err, c)
           | Inr pipelineType \<Rightarrow>
               (case getApplicationSnapshotFromPipelineRun c (pipelineRun a) pipelineType of
                  (Inl err, c1) \<Rightarrow> (RequeueWithError err, c1)
                | (Inr existingApplicationSnapshot, c1) \<Rightarrow>
                    (case getRequiredIntegrationTestScenariosForApplication c1 (application a) of
                       (Inl err, c2) \<Rightarrow> (RequeueWithError err, c2)
                     | (Inr integrationTestScenarios, c2) \<Rightarrow>
                         (case getAllPipelineRunsForApplicationSnapshot a c2
                                 existingApplicationSnapshot integrationTestScenarios of
                            (Inl err, c3) \<Rightarrow>
                              (case updateStatus a c3 of
                                 (written, c4) \<Rightarrow> (RequeueOnErrorOrStop written, c4))
                          | (Inr integrationPipelineRuns, c3) \<Rightarrow>
                              if length integrationTestScenarios \<noteq> length integrationPipelineRuns
                              then (ContinueProcessing, c3)
                              else writeVerdict U a c3 existingApplicationSnapshot
                                     integrationPipelineRuns))))"

section \<open>Notions used in the statements\<close>

text \<open>
  The task results of a PipelineRun named \<^verbatim>\<open>HACBS_TEST_OUTPUT\<close>, in the order of the
  scan; whether the value of one decodes; and whether it decodes to an object whose
  \<open>result\<close> is neither \<open>SUCCESS\<close> nor \<open>SKIPPED\<close> (a missing \<open>result\<close> reads as nil
  and is neither).
\<close>

definition testOutputs :: "PipelineRun \<Rightarrow> TaskRunResult list" where
  "testOutputs pr =
     filter (\<lambda>r. trr_Name r = ''HACBS_TEST_OUTPUT'')
       (concat (map (\<lambda>taskRun. TaskRunResults (snd taskRun)) (pr_TaskRuns pr)))"

definition parses :: "unmarshal \<Rightarrow> TaskRunResult \<Rightarrow> bool" where
  "parses U r = (case U (trr_Value r) of Inl err \<Rightarrow> False | Inr testOutput \<Rightarrow> True)"

definition resultIsNeither :: "unmarshal \<Rightarrow> TaskRunResult \<Rightarrow> bool" where
  "resultIsNeither U r =
     (case U (trr_Value r) of
        Inl err \<Rightarrow> False
      | Inr testOutput \<Rightarrow>
          testOutput ''result'' \<noteq> Some (JString ''SUCCESS'')
          \<and> testOutput ''result'' \<noteq> Some (JString ''SKIPPED''))"

text \<open>
  \<^verbatim>\<open>meta.FindStatusCondition\<close>, and the verdict a stored snapshot carries: the status
  and the reason of its \<^verbatim>\<open>HACBSTestSucceeded\<close> condition.
\<close>

definition FindStatusCondition :: "Condition list \<Rightarrow> string \<Rightarrow> Condition option" where
  "FindStatusCondition conds t = find (\<lambda>x. cond_Type x = t) conds"

definition verdictOf :: "cluster \<Rightarrow> string \<Rightarrow> string \<Rightarrow> (ConditionStatus \<times> string) option" where
  "verdictOf c namespace name =
     (case find (\<lambda>x. snap_Namespace x = namespace \<and> snap_Name x = name)
             (ApplicationSnapshots c) of
        None \<Rightarrow> None
      | Some snapshot \<Rightarrow>
          (case FindStatusCondition (snap_Conditions snapshot) ''HACBSTestSucceeded'' of
             None \<Rightarrow> None
           | Some cond \<Rightarrow> Some (cond_Status cond, cond_Reason cond)))"

text \<open>
  A PipelineRun whose completion condition is succeeded = true; the scenarios of an
  Application that the selector of the required scenarios lets through; the Components of
  an Application.
\<close>

definition succeeded :: "PipelineRun \<Rightarrow> bool" where
  "succeeded pr = IsTrue (GetCondition (pr_Conditions pr) ''Succeeded'')"

definition requiredOf :: "cluster \<Rightarrow> Application \<Rightarrow> IntegrationTestScenario list" where
  "requiredOf c app =
     filter (\<lambda>s. its_Namespace s = app_Namespace app \<and> its_Application s = app_Name app
                 \<and> its_Labels s ''test.appstudio.openshift.io/optional'' \<noteq> Some ''false'')
       (IntegrationTestScenarios c)"

definition componentsOf :: "cluster \<Rightarrow> Application \<Rightarrow> Component list" where
  "componentsOf c app =
     filter (\<lambda>x. comp_Namespace x = app_Namespace app \<and> comp_Application x = app_Name app)
       (Components c)"

text \<open>
  Two clusters that hold the same objects (they may differ in the calls that will fail and
  in the name suffixes to come); the snapshots of an Application.
\<close>

definition sameObjects :: "cluster \<Rightarrow> cluster \<Rightarrow> bool" where
  "sameObjects c c' \<longleftrightarrow>
     Components c' = Components c \<and> ApplicationSnapshots c' = ApplicationSnapshots c
     \<and> IntegrationTestScenarios c' = IntegrationTestScenarios c
     \<and> PipelineRuns c' = PipelineRuns c"

definition snapshotsOf :: "cluster \<Rightarrow> Application \<Rightarrow> ApplicationSnapshot list" where
  "snapshotsOf c app =
     filter (\<lambda>x. snap_Namespace x = app_Namespace app \<and> snap_Application x = app_Name app)
       (ApplicationSnapshots c)"

section \<open>Sample objects\<close>

text \<open>
  Concrete objects on which the statements below are evaluated. \<open>sampleTekton\<close> stands
  in for package \<^verbatim>\<open>tekton\<close>: it reads the kind of a PipelineRun from its type label
  and reports one fixed output image and digest.
\<close>

definition sampleTekton :: tekton where
  "sampleTekton =
     \<lparr>IsBuildPipelineRun =
        (\<lambda>pr. pr_Labels pr ''pipelines.appstudio.openshift.io/type'' = Some ''build''),
      IsIntegrationPipelineRun =
        (\<lambda>pr. pr_Labels pr ''pipelines.appstudio.openshift.io/type'' = Some ''test''),
      GetTypeFromPipelineRun =
        (\<lambda>pr. case pr_Labels pr ''pipelines.appstudio.openshift.io/type'' of
                 None \<Rightarrow> Inl (Errorf ''the pipelineRun has no type label'')
               | Some t \<Rightarrow> Inr t),
      GetOutputImage = (\<lambda>pr. Inr ''registry.example.com:5000/org/a:v3''),
      GetOutputImageDigest = (\<lambda>pr. Inr ''sha256:abc'')\<rparr>"

definition samplePipelineRun :: "string \<Rightarrow> (string \<rightharpoonup> string) \<Rightarrow> PipelineRun" where
  "samplePipelineRun name ls =
     \<lparr>pr_Name = name, pr_Namespace = ''ns'', pr_Labels = ls, pr_Conditions = [],
      pr_CompletionTime = 0, pr_TaskRuns = []\<rparr>"

definition sampleSnapshot :: "ApplicationSnapshotComponent list \<Rightarrow> ApplicationSnapshot" where
  "sampleSnapshot cs =
     \<lparr>snap_Name = ''app1-xyz'', snap_GenerateName = ''app1-'', snap_Namespace = ''ns'',
      snap_Labels = Map.empty, snap_Application = ''app1'', snap_Components = cs,
      snap_Conditions = []\<rparr>"

definition componentA :: ApplicationSnapshotComponent where
  "componentA = \<lparr>Name = ''A'', ContainerImage = ''img1''\<rparr>"

definition componentB :: ApplicationSnapshotComponent where
  "componentB = \<lparr>Name = ''B'', ContainerImage = ''img2''\<rparr>"

text \<open>
  \<open>sampleUnmarshal\<close> stands in for \<^verbatim>\<open>json.Unmarshal\<close> on the payloads of the
  samples: each of the three result objects decodes to its one field, and the text
  \<open>not json\<close> is refused (as is every other string: no sample has one).
\<close>

definition sampleUnmarshal :: unmarshal where
  \<open>sampleUnmarshal s =
     (if s = ''{"result":"SUCCESS"}'' then Inr [''result'' \<mapsto> JString ''SUCCESS'']
      else if s = ''{"result":"SKIPPED"}'' then Inr [''result'' \<mapsto> JString ''SKIPPED'']
      else if s = ''{"result":"FAILURE"}'' then Inr [''result'' \<mapsto> JString ''FAILURE'']
      else Inl (Errorf ''invalid character''))\<close>

definition testOutput :: "string \<Rightarrow> TaskRunResult" where
  "testOutput v = \<lparr>trr_Name = ''HACBS_TEST_OUTPUT'', trr_Value = v\<rparr>"

definition sampleTestRun :: "string \<Rightarrow> string \<Rightarrow> int \<Rightarrow> TaskRunResult list \<Rightarrow> PipelineRun" where
  "sampleTestRun name scenario finished rs =
     \<lparr>pr_Name = name, pr_Namespace = ''ns'',
      pr_Labels = [''pipelines.appstudio.openshift.io/type'' \<mapsto> ''test'',
                   ''test.appstudio.openshift.io/snapshot'' \<mapsto> ''app1-xyz'',
                   ''test.appstudio.openshift.io/scenario'' \<mapsto> scenario],
      pr_Conditions = [\<lparr>cond_Type = ''Succeeded'', cond_Status = ConditionTrue,
                        cond_Reason = ''Succeeded'', cond_Message = []\<rparr>],
      pr_CompletionTime = finished,
      pr_TaskRuns = [(''task1'', \<lparr>PipelineTaskName = ''task1'', TaskRunResults = rs\<rparr>)]\<rparr>"

definition sampleComponent :: "string \<Rightarrow> string \<Rightarrow> string \<Rightarrow> Component" where
  "sampleComponent name app img =
     \<lparr>comp_Name = name, comp_Namespace = ''ns'', comp_Application = app,
      comp_ContainerImage = img\<rparr>"

definition sampleAdapter :: "PipelineRun \<Rightarrow> Adapter" where
  "sampleAdapter pr =
     \<lparr>pipelineRun = pr,
      component = sampleComponent ''A'' ''app1'' ''r/a@sha1'',
      application = \<lparr>app_Name = ''app1'', app_Namespace = ''ns''\<rparr>\<rparr>"

definition sampleScenario :: "string \<Rightarrow> (string \<rightharpoonup> string) \<Rightarrow> IntegrationTestScenario" where
  "sampleScenario name ls =
     \<lparr>its_Name = name, its_Namespace = ''ns'', its_Labels = ls, its_Application = ''app1''\<rparr>"

text \<open>
  The sample cluster: application \<open>app1\<close> with components A and B (C is another
  application's), one snapshot \<open>app1-xyz\<close>, three scenarios (no \<open>optional\<close> label,
  \<open>optional=true\<close>, \<open>optional=false\<close>), the given PipelineRuns, and no failing call.
\<close>

definition sampleCluster :: "PipelineRun list \<Rightarrow> cluster" where
  "sampleCluster prs =
     \<lparr>Components = [sampleComponent ''A'' ''app1'' ''r/a@sha1'',
                     sampleComponent ''B'' ''app1'' ''r/b@sha2'',
                     sampleComponent ''C'' ''app2'' ''r/c@sha9''],
      ApplicationSnapshots = [sampleSnapshot [componentA, componentB]],
      IntegrationTestScenarios =
        [sampleScenario ''s1'' Map.empty,
         sampleScenario ''s2'' [''test.appstudio.openshift.io/optional'' \<mapsto> ''true''],
         sampleScenario ''s3'' [''test.appstudio.openshift.io/optional'' \<mapsto> ''false'']],
      PipelineRuns = prs, failures = [], suffixes = [''abc'']\<rparr>"

definition runSuccess :: PipelineRun where
  \<open>runSuccess = sampleTestRun ''run1'' ''s1'' 10 [testOutput ''{"result":"SUCCESS"}'']\<close>

definition runSkipped :: PipelineRun where
  \<open>runSkipped = sampleTestRun ''run2'' ''s2'' 20 [testOutput ''{"result":"SKIPPED"}'']\<close>

definition runFailure :: PipelineRun where
  \<open>runFailure = sampleTestRun ''run2'' ''s2'' 20 [testOutput ''{"result":"FAILURE"}'']\<close>

definition runMalformed :: PipelineRun where
  \<open>runMalformed = sampleTestRun ''run2'' ''s2'' 20 [testOutput ''not json'']\<close>

definition runLater :: PipelineRun where
  \<open>runLater = sampleTestRun ''run3'' ''s1'' 30 [testOutput ''{"result":"SUCCESS"}'']\<close>

definition runUnfinished :: PipelineRun where
  "runUnfinished = (sampleTestRun ''run4'' ''s1'' 40 [])\<lparr>pr_Conditions := []\<rparr>"

definition runBuild :: PipelineRun where
  "runBuild = samplePipelineRun ''build-a''
                [''pipelines.appstudio.openshift.io/type'' \<mapsto> ''build'']"

definition runUnlabelled :: PipelineRun where
  "runUnlabelled = samplePipelineRun ''test-x''
                     [''pipelines.appstudio.openshift.io/type'' \<mapsto> ''test'']"

text \<open>The snapshot that a build of component A creates in the sample cluster.\<close>

definition sampleCreated :: ApplicationSnapshot where
  "sampleCreated =
     \<lparr>snap_Name = ''app1-abc'', snap_GenerateName = ''app1-'', snap_Namespace = ''ns'',
      snap_Labels = [''component'' \<mapsto> ''A''], snap_Application = ''app1'',
      snap_Components = [\<lparr>Name = ''A'', ContainerImage = ''registry.example.com@sha256:abc''\<rparr>,
                         \<lparr>Name = ''B'', ContainerImage = ''r/b@sha2''\<rparr>],
      snap_Conditions = []\<rparr>"

section \<open>Properties\<close>

lemma splitAt_colon_hd:
  "\<exists>rest. splitAt '':'' acc s = (rev acc @ takeWhile (\<lambda>c. c \<noteq> CHR '':'') s) # rest"
proof (induction s arbitrary: acc)
  case Nil
  show ?case by simp
next
  case (Cons c cs)
  show ?case
  proof (cases "c = CHR '':''")
    case True
    then show ?thesis by simp
  next
    case False
    from Cons [of "c # acc"] False show ?thesis by simp
  qed
qed

lemma Split_colon_hd:
  "\<exists>rest. Split s '':'' = takeWhile (\<lambda>c. c \<noteq> CHR '':'') s # rest"
  using splitAt_colon_hd [of "[]" s] by (simp add: Split_def)

subsection \<open>The image pull spec\<close>

text \<open>
  C10. When the build PipelineRun has an output image and an output image digest, the
  pull spec is the output image up to its first colon, then \<open>@\<close>, then the digest. So
  for an output image \<open>host:rest\<close> with no colon in \<open>host\<close> (a registry with a port, or
  a tag), the pull spec is \<open>host@digest\<close>: the colon and all that follows it are dropped.
\<close>

theorem getImagePullSpecFromPipelineRun_truncates_at_colon:
  assumes "GetOutputImage tk pr = Inr outputImage"
      and "GetOutputImageDigest tk pr = Inr imageDigest"
  shows "getImagePullSpecFromPipelineRun tk pr
           = Inr (takeWhile (\<lambda>c. c \<noteq> CHR '':'') outputImage @ ''@'' @ imageDigest)
         \<and> (\<forall>host rest. outputImage = host @ '':'' @ rest \<and> CHR '':'' \<notin> set host
              \<longrightarrow> getImagePullSpecFromPipelineRun tk pr = Inr (host @ ''@'' @ imageDigest))"
proof -
  obtain rest where split: "Split outputImage '':'' = takeWhile (\<lambda>c. c \<noteq> CHR '':'') outputImage # rest"
    using Split_colon_hd by blast
  have first: "getImagePullSpecFromPipelineRun tk pr
                 = Inr (takeWhile (\<lambda>c. c \<noteq> CHR '':'') outputImage @ ''@'' @ imageDigest)"
    using assms split by (simp add: getImagePullSpecFromPipelineRun_def)
  have "takeWhile (\<lambda>c. c \<noteq> CHR '':'') (host @ '':'' @ r) = host"
    if "CHR '':'' \<notin> set host" for host r :: string
    using that by (induction host) auto
  with first show ?thesis by auto
qed

theorem getImagePullSpecFromPipelineRun_truncates_at_colon_witness:
  "GetOutputImage sampleTekton (samplePipelineRun ''build-a'' Map.empty)
     = Inr ''registry.example.com:5000/org/a:v3''
   \<and> GetOutputImageDigest sampleTekton (samplePipelineRun ''build-a'' Map.empty)
     = Inr ''sha256:abc''
   \<and> getImagePullSpecFromPipelineRun sampleTekton (samplePipelineRun ''build-a'' Map.empty)
     = Inr ''registry.example.com@sha256:abc''"
proof -
  have image: "GetOutputImage sampleTekton (samplePipelineRun ''build-a'' Map.empty)
                 = Inr ''registry.example.com:5000/org/a:v3''"
    by (simp add: sampleTekton_def)
  have digest: "GetOutputImageDigest sampleTekton (samplePipelineRun ''build-a'' Map.empty)
                  = Inr ''sha256:abc''"
    by (simp add: sampleTekton_def)
  from getImagePullSpecFromPipelineRun_truncates_at_colon [OF image digest]
  show ?thesis using image digest by simp
qed

subsection \<open>Comparing snapshots\<close>

lemma fold_foundImage:
  "fold (\<lambda>component2 foundImage. if component2 = x then True else foundImage) ys b
     = (b \<or> x \<in> set ys)"
  by (induction ys arbitrary: b) auto

lemma fold_allImagesMatch:
  "fold (\<lambda>component1 allImagesMatch.
           if \<not> (component1 \<in> set ys) then False else allImagesMatch) xs b
     = (b \<and> set xs \<subseteq> set ys)"
  by (induction xs arbitrary: b) auto

lemma compareApplicationSnapshots_set:
  "compareApplicationSnapshots s1 s2
     = (length (snap_Components s1) = length (snap_Components s2)
        \<and> set (snap_Components s1) \<subseteq> set (snap_Components s2))"
  by (simp add: compareApplicationSnapshots_def Let_def fold_foundImage fold_allImagesMatch)

lemma distinct_subset_same_length:
  assumes "distinct xs" "length xs = length ys" "set xs \<subseteq> set ys"
  shows "set ys \<subseteq> set xs"
proof -
  have "card (set xs) = length xs" using assms(1) by (simp add: distinct_card)
  moreover have "card (set ys) \<le> length ys" by (rule card_length)
  ultimately have "card (set ys) \<le> card (set xs)" using assms(2) by simp
  with assms(3) have "set xs = set ys"
    by (meson List.finite_set card_seteq)
  then show ?thesis by simp
qed

text \<open>
  C6, as stated, fails: the comparison checks that the two lists have the same length and
  that every entry of the first is in the second, so a first list that repeats an entry
  can match a second list that it does not match the other way round.
\<close>

theorem compareApplicationSnapshots_not_symmetric:
  "compareApplicationSnapshots (sampleSnapshot [componentA, componentA])
                               (sampleSnapshot [componentA, componentB]) = True
   \<and> compareApplicationSnapshots (sampleSnapshot [componentA, componentB])
                                 (sampleSnapshot [componentA, componentA]) = False"
  by (simp add: compareApplicationSnapshots_def sampleSnapshot_def componentA_def componentB_def)

text \<open>
  C6, amended. The comparison does not depend on the order of either component list:
  permuting the lists leaves the result as it is. It is symmetric for two snapshots
  neither of which lists the same (name, image) entry twice.
\<close>

theorem compareApplicationSnapshots_order_and_symmetry:
  "(mset (snap_Components s1') = mset (snap_Components s1)
      \<and> mset (snap_Components s2') = mset (snap_Components s2)
    \<longrightarrow> compareApplicationSnapshots s1' s2' = compareApplicationSnapshots s1 s2)
   \<and> (distinct (snap_Components s1) \<and> distinct (snap_Components s2)
    \<longrightarrow> compareApplicationSnapshots s1 s2 = compareApplicationSnapshots s2 s1)"
proof (intro conjI impI)
  assume "mset (snap_Components s1') = mset (snap_Components s1)
            \<and> mset (snap_Components s2') = mset (snap_Components s2)"
  then show "compareApplicationSnapshots s1' s2' = compareApplicationSnapshots s1 s2"
    using mset_eq_length mset_eq_setD unfolding compareApplicationSnapshots_set by metis
next
  assume "distinct (snap_Components s1) \<and> distinct (snap_Components s2)"
  then show "compareApplicationSnapshots s1 s2 = compareApplicationSnapshots s2 s1"
    using distinct_subset_same_length [of "snap_Components s1" "snap_Components s2"]
      distinct_subset_same_length [of "snap_Components s2" "snap_Components s1"]
    by (auto simp: compareApplicationSnapshots_set)
qed

theorem compareApplicationSnapshots_order_and_symmetry_witness:
  "mset (snap_Components (sampleSnapshot [componentB, componentA]))
     = mset (snap_Components (sampleSnapshot [componentA, componentB]))
   \<and> distinct (snap_Components (sampleSnapshot [componentA, componentB]))
   \<and> distinct (snap_Components (sampleSnapshot [componentB, componentA]))
   \<and> compareApplicationSnapshots (sampleSnapshot [componentA, componentB])
                                 (sampleSnapshot [componentB, componentA])
   \<and> compareApplicationSnapshots (sampleSnapshot [componentB, componentA])
                                 (sampleSnapshot [componentA, componentB])"
proof -
  have perm: "mset (snap_Components (sampleSnapshot [componentB, componentA]))
                = mset (snap_Components (sampleSnapshot [componentA, componentB]))"
    by (simp add: sampleSnapshot_def)
  have dist: "distinct (snap_Components (sampleSnapshot [componentA, componentB]))"
             "distinct (snap_Components (sampleSnapshot [componentB, componentA]))"
    by (simp_all add: sampleSnapshot_def componentA_def componentB_def)
  have same: "compareApplicationSnapshots (sampleSnapshot [componentA, componentB])
                (sampleSnapshot [componentA, componentB])"
    by (simp add: compareApplicationSnapshots_set)
  from compareApplicationSnapshots_order_and_symmetry
         [of "sampleSnapshot [componentA, componentB]" "sampleSnapshot [componentA, componentB]"
             "sampleSnapshot [componentB, componentA]" "sampleSnapshot [componentA, componentB]"]
       compareApplicationSnapshots_order_and_symmetry
         [of "sampleSnapshot [componentA, componentB]" "sampleSnapshot [componentA, componentB]"
             "sampleSnapshot [componentA, componentB]" "sampleSnapshot [componentB, componentA]"]
  show ?thesis using perm dist same by simp
qed

subsection \<open>Outcome of one integration PipelineRun\<close>

lemma scanTaskRunResults_parsed:
  assumes "\<forall>r \<in> set rs. trr_Name r = ''HACBS_TEST_OUTPUT'' \<longrightarrow> parses U r"
  shows "scanTaskRunResults U rs
           = (if \<exists>r \<in> set rs. trr_Name r = ''HACBS_TEST_OUTPUT'' \<and> resultIsNeither U r
              then Some (Inr False) else None)"
  using assms
proof (induction rs)
  case Nil
  show ?case by simp
next
  case (Cons r rs)
  then show ?case
    by (cases "U (trr_Value r)") (auto simp: parses_def resultIsNeither_def)
qed

lemma scanTaskRuns_parsed:
  assumes "\<forall>t \<in> set ts. \<forall>r \<in> set (TaskRunResults (snd t)).
             trr_Name r = ''HACBS_TEST_OUTPUT'' \<longrightarrow> parses U r"
  shows "scanTaskRuns U ts
           = Inr (\<not> (\<exists>t \<in> set ts. \<exists>r \<in> set (TaskRunResults (snd t)).
                        trr_Name r = ''HACBS_TEST_OUTPUT'' \<and> resultIsNeither U r))"
  using assms
proof (induction ts)
  case Nil
  show ?case by simp
next
  case (Cons t ts)
  have here: "scanTaskRunResults U (TaskRunResults (snd t))
           = (if \<exists>r \<in> set (TaskRunResults (snd t)). trr_Name r = ''HACBS_TEST_OUTPUT'' \<and> resultIsNeither U r
              then Some (Inr False) else None)"
    using Cons.prems by (intro scanTaskRunResults_parsed) simp
  have rest: "scanTaskRuns U ts
           = Inr (\<not> (\<exists>t \<in> set ts. \<exists>r \<in> set (TaskRunResults (snd t)).
                        trr_Name r = ''HACBS_TEST_OUTPUT'' \<and> resultIsNeither U r))"
    using Cons.prems by (intro Cons.IH) simp
  show ?case
    by (simp add: here rest)
qed

lemma calculate_parsed:
  assumes "\<forall>r \<in> set (testOutputs pr). parses U r"
  shows "calculateIntegrationPipelineRunOutcome U pr
           = Inr (\<not> (\<exists>r \<in> set (testOutputs pr). resultIsNeither U r))"
proof -
  have "\<forall>t \<in> set (pr_TaskRuns pr). \<forall>r \<in> set (TaskRunResults (snd t)).
             trr_Name r = ''HACBS_TEST_OUTPUT'' \<longrightarrow> parses U r"
    using assms by (auto simp: testOutputs_def)
  from scanTaskRuns_parsed [OF this] show ?thesis
    by (auto simp: calculateIntegrationPipelineRunOutcome_def testOutputs_def)
qed

lemma scanTaskRunResults_error:
  "scanTaskRunResults U rs = Some (Inl e)
     \<Longrightarrow> \<exists>r \<in> set rs. trr_Name r = ''HACBS_TEST_OUTPUT'' \<and> U (trr_Value r) = Inl e"
  by (induction rs) (auto split: if_splits sum.splits)

lemma scanTaskRuns_error:
  "scanTaskRuns U ts = Inl e
     \<Longrightarrow> \<exists>t \<in> set ts. \<exists>r \<in> set (TaskRunResults (snd t)).
            trr_Name r = ''HACBS_TEST_OUTPUT'' \<and> U (trr_Value r) = Inl e"
  by (induction ts) (auto split: option.splits dest: scanTaskRunResults_error)

lemma calculate_error:
  "calculateIntegrationPipelineRunOutcome U pr = Inl e
     \<Longrightarrow> \<exists>r \<in> set (testOutputs pr). U (trr_Value r) = Inl e"
  by (auto simp: testOutputs_def calculateIntegrationPipelineRunOutcome_def dest!: scanTaskRuns_error)

lemma determineLoop_outcomes:
  assumes "\<forall>pr \<in> set prs. \<exists>b. calculateIntegrationPipelineRunOutcome U pr = Inr b"
  shows "determineLoop U allPassed prs
           = Inr (allPassed \<and> (\<forall>pr \<in> set prs. calculateIntegrationPipelineRunOutcome U pr = Inr True))"
  using assms
proof (induction prs arbitrary: allPassed)
  case Nil
  show ?case by simp
next
  case (Cons pr prs)
  then obtain b where b: "calculateIntegrationPipelineRunOutcome U pr = Inr b" by auto
  with Cons show ?case by (cases b) auto
qed

lemma determineLoop_error:
  assumes "\<exists>pr \<in> set prs. \<exists>e. calculateIntegrationPipelineRunOutcome U pr = Inl e"
  shows "\<exists>e. determineLoop U allPassed prs = Inl e"
  using assms
proof (induction prs arbitrary: allPassed)
  case Nil
  then show ?case by simp
next
  case (Cons pr prs)
  show ?case
  proof (cases "calculateIntegrationPipelineRunOutcome U pr")
    case (Inl e)
    then show ?thesis by simp
  next
    case (Inr b)
    with Cons.prems have "\<exists>pr \<in> set prs. \<exists>e. calculateIntegrationPipelineRunOutcome U pr = Inl e"
      by auto
    from Cons.IH [OF this] Inr show ?thesis by simp
  qed
qed


text \<open>
  C2, as stated, fails where a value does not decode: the computation returns the decoding
  error. A run whose only test output is malformed is not reported as passed, though no
  result field is at fault; a run with a malformed output scanned before a
  \<open>FAILURE\<close> is not reported as failed.
\<close>

theorem calculateIntegrationPipelineRunOutcome_error_counterexample:
  \<open>testOutputs (sampleTestRun ''run1'' ''s1'' 10 [testOutput ''not json''])
     = [testOutput ''not json'']
   \<and> \<not> resultIsNeither sampleUnmarshal (testOutput ''not json'')
   \<and> calculateIntegrationPipelineRunOutcome sampleUnmarshal
       (sampleTestRun ''run1'' ''s1'' 10 [testOutput ''not json''])
     = Inl (Errorf ''invalid character'')
   \<and> testOutputs (sampleTestRun ''run1'' ''s1'' 10
                    [testOutput ''not json'', testOutput ''{"result":"FAILURE"}''])
     = [testOutput ''not json'', testOutput ''{"result":"FAILURE"}'']
   \<and> resultIsNeither sampleUnmarshal (testOutput ''{"result":"FAILURE"}'')
   \<and> calculateIntegrationPipelineRunOutcome sampleUnmarshal
       (sampleTestRun ''run1'' ''s1'' 10
          [testOutput ''not json'', testOutput ''{"result":"FAILURE"}''])
     = Inl (Errorf ''invalid character'')\<close>
  by (simp add: testOutputs_def sampleTestRun_def testOutput_def resultIsNeither_def
        sampleUnmarshal_def calculateIntegrationPipelineRunOutcome_def)

text \<open>
  C2, amended. For a PipelineRun whose \<^verbatim>\<open>HACBS_TEST_OUTPUT\<close> values all decode, the
  outcome is a failure if and only if one of them has a \<open>result\<close> that is neither
  \<open>SUCCESS\<close> nor \<open>SKIPPED\<close>, and a pass otherwise; a run with no such task result
  passes.
\<close>

theorem calculateIntegrationPipelineRunOutcome_parsed:
  "((\<forall>r \<in> set (testOutputs pr). parses U r)
      \<longrightarrow> (calculateIntegrationPipelineRunOutcome U pr = Inr False
             \<longleftrightarrow> (\<exists>r \<in> set (testOutputs pr). resultIsNeither U r))
          \<and> (calculateIntegrationPipelineRunOutcome U pr = Inr True
             \<longleftrightarrow> \<not> (\<exists>r \<in> set (testOutputs pr). resultIsNeither U r)))
   \<and> (testOutputs pr = [] \<longrightarrow> calculateIntegrationPipelineRunOutcome U pr = Inr True)"
proof (intro conjI impI)
  assume all: "\<forall>r \<in> set (testOutputs pr). parses U r"
  from calculate_parsed [OF all]
  show "calculateIntegrationPipelineRunOutcome U pr = Inr False
          \<longleftrightarrow> (\<exists>r \<in> set (testOutputs pr). resultIsNeither U r)"
    by simp
  from calculate_parsed [OF all]
  show "calculateIntegrationPipelineRunOutcome U pr = Inr True
          \<longleftrightarrow> \<not> (\<exists>r \<in> set (testOutputs pr). resultIsNeither U r)"
    by simp
next
  assume none: "testOutputs pr = []"
  then have "\<forall>r \<in> set (testOutputs pr). parses U r" by simp
  from calculate_parsed [OF this] none
  show "calculateIntegrationPipelineRunOutcome U pr = Inr True" by simp
qed

theorem calculateIntegrationPipelineRunOutcome_parsed_witness:
  \<open>list_all (parses sampleUnmarshal)
     (testOutputs (sampleTestRun ''run1'' ''s1'' 10
        [testOutput ''{"result":"SUCCESS"}'', testOutput ''{"result":"FAILURE"}'']))
   \<and> resultIsNeither sampleUnmarshal (testOutput ''{"result":"FAILURE"}'')
   \<and> calculateIntegrationPipelineRunOutcome sampleUnmarshal
       (sampleTestRun ''run1'' ''s1'' 10
          [testOutput ''{"result":"SUCCESS"}'', testOutput ''{"result":"FAILURE"}''])
     = Inr False
   \<and> testOutputs (sampleTestRun ''run2'' ''s1'' 10 []) = []
   \<and> calculateIntegrationPipelineRunOutcome sampleUnmarshal (sampleTestRun ''run2'' ''s1'' 10 [])
     = Inr True\<close>
proof -
  let ?run = \<open>sampleTestRun ''run1'' ''s1'' 10
        [testOutput ''{"result":"SUCCESS"}'', testOutput ''{"result":"FAILURE"}'']\<close>
  have outs: \<open>testOutputs ?run
      = [testOutput ''{"result":"SUCCESS"}'', testOutput ''{"result":"FAILURE"}'']\<close>
    by (simp add: testOutputs_def sampleTestRun_def testOutput_def)
  have p: \<open>parses sampleUnmarshal (testOutput ''{"result":"SUCCESS"}'')\<close>
          \<open>parses sampleUnmarshal (testOutput ''{"result":"FAILURE"}'')\<close>
    by (simp_all add: parses_def testOutput_def sampleUnmarshal_def)
  have n: \<open>resultIsNeither sampleUnmarshal (testOutput ''{"result":"FAILURE"}'')\<close>
    by (simp add: resultIsNeither_def testOutput_def sampleUnmarshal_def)
  have none: "testOutputs (sampleTestRun ''run2'' ''s1'' 10 []) = []"
    by (simp add: testOutputs_def sampleTestRun_def)
  from calculateIntegrationPipelineRunOutcome_parsed [of ?run sampleUnmarshal]
       calculateIntegrationPipelineRunOutcome_parsed
         [of "sampleTestRun ''run2'' ''s1'' 10 []" sampleUnmarshal]
  show ?thesis using outs p n none by simp
qed


subsection \<open>The store\<close>

lemma client_call_frame:
  "client_call c = (f, c') \<Longrightarrow>
     Components c' = Components c \<and> ApplicationSnapshots c' = ApplicationSnapshots c
     \<and> IntegrationTestScenarios c' = IntegrationTestScenarios c
     \<and> PipelineRuns c' = PipelineRuns c \<and> suffixes c' = suffixes c"
  by (auto simp: client_call_def split: list.splits)

lemma updateStatus_frame:
  "updateStatus a c = (w, c') \<Longrightarrow>
     Components c' = Components c \<and> ApplicationSnapshots c' = ApplicationSnapshots c
     \<and> IntegrationTestScenarios c' = IntegrationTestScenarios c \<and> suffixes c' = suffixes c"
  by (auto simp: updateStatus_def client_Status_Update_PipelineRun_def
           split: prod.splits option.splits if_splits dest: client_call_frame)

lemma FindStatusCondition_Set:
  "FindStatusCondition (SetStatusCondition conds n) (cond_Type n)
     = Some (case FindStatusCondition conds (cond_Type n) of
               None \<Rightarrow> n
             | Some existing \<Rightarrow> existing\<lparr>cond_Status := cond_Status n,
                    cond_Reason := cond_Reason n, cond_Message := cond_Message n\<rparr>)"
  by (induction conds) (auto simp: FindStatusCondition_def)

lemma FindStatusCondition_Set_verdict:
  "\<exists>cond. FindStatusCondition (SetStatusCondition conds n) (cond_Type n) = Some cond
      \<and> cond_Status cond = cond_Status n \<and> cond_Reason cond = cond_Reason n"
  by (simp add: FindStatusCondition_Set split: option.splits)

lemma find_map_update:
  assumes "\<And>x. P (f x) = P x"
  shows "find P (map (\<lambda>x. if P x then f x else x) xs) = map_option f (find P xs)"
  by (induction xs) (auto simp: assms)

lemma patch_verdict:
  assumes stored: "\<exists>x \<in> set (ApplicationSnapshots c).
                     snap_Namespace x = snap_Namespace s \<and> snap_Name x = snap_Name s"
      and nofault: "fst (client_call c) = None"
  shows "\<exists>c'. client_Status_Patch_ApplicationSnapshot c s = (None, c')
          \<and> verdictOf c' (snap_Namespace s) (snap_Name s)
              = (case FindStatusCondition (snap_Conditions s) ''HACBSTestSucceeded'' of
                   None \<Rightarrow> None | Some cond \<Rightarrow> Some (cond_Status cond, cond_Reason cond))"
proof -
  obtain c1 where call: "client_call c = (None, c1)"
    using nofault by (cases "client_call c") auto
  then have same: "ApplicationSnapshots c1 = ApplicationSnapshots c"
    using client_call_frame by blast
  let ?P = "\<lambda>x. snap_Namespace x = snap_Namespace s \<and> snap_Name x = snap_Name s"
  let ?f = "\<lambda>x. x\<lparr>snap_Conditions := snap_Conditions s\<rparr>"
  have found: "find ?P (map (\<lambda>x. if ?P x then ?f x else x) (ApplicationSnapshots c))
                = map_option ?f (find ?P (ApplicationSnapshots c))"
    by (rule find_map_update) simp
  from stored obtain y where y: "find ?P (ApplicationSnapshots c) = Some y"
    by (cases "find ?P (ApplicationSnapshots c)") (auto simp: find_None_iff)
  show ?thesis
    using stored call same found y
    by (simp add: client_Status_Patch_ApplicationSnapshot_def verdictOf_def)
qed


subsection \<open>The verdict\<close>

lemma determineIfAll_outcomes:
  assumes "\<forall>pr \<in> set prs. \<exists>b. calculateIntegrationPipelineRunOutcome U pr = Inr b"
  shows "determineIfAllIntegrationPipelinesPassed U prs
           = Inr (\<forall>pr \<in> set prs. calculateIntegrationPipelineRunOutcome U pr = Inr True)"
  using determineLoop_outcomes [OF assms, of True]
  by (simp add: determineIfAllIntegrationPipelinesPassed_def)

lemma mark_verdict:
  assumes stored: "\<exists>x \<in> set (ApplicationSnapshots c).
                     snap_Namespace x = snap_Namespace s \<and> snap_Name x = snap_Name s"
      and nofault: "fst (client_call c) = None"
  shows "\<exists>m c'. markSnapshotAsPassed c s msg = (Inr m, c')
            \<and> verdictOf c' (snap_Namespace s) (snap_Name s) = Some (ConditionTrue, ''Passed'')"
    and "\<exists>m c'. markSnapshotAsFailed c s msg = (Inr m, c')
            \<and> verdictOf c' (snap_Namespace s) (snap_Name s) = Some (ConditionFalse, ''Failed'')"
proof -
  let ?p = "\<lparr>cond_Type = ''HACBSTestSucceeded'', cond_Status = ConditionTrue,
               cond_Reason = ''Passed'', cond_Message = msg\<rparr>"
  let ?sp = "s\<lparr>snap_Conditions := SetStatusCondition (snap_Conditions s) ?p\<rparr>"
  have "\<exists>x \<in> set (ApplicationSnapshots c).
          snap_Namespace x = snap_Namespace ?sp \<and> snap_Name x = snap_Name ?sp"
    using stored by simp
  from patch_verdict [OF this nofault] FindStatusCondition_Set_verdict [of "snap_Conditions s" ?p]
  show "\<exists>m c'. markSnapshotAsPassed c s msg = (Inr m, c')
            \<and> verdictOf c' (snap_Namespace s) (snap_Name s) = Some (ConditionTrue, ''Passed'')"
    by (auto simp: markSnapshotAsPassed_def Let_def)
  let ?f = "\<lparr>cond_Type = ''HACBSTestSucceeded'', cond_Status = ConditionFalse,
               cond_Reason = ''Failed'', cond_Message = msg\<rparr>"
  let ?sf = "s\<lparr>snap_Conditions := SetStatusCondition (snap_Conditions s) ?f\<rparr>"
  have "\<exists>x \<in> set (ApplicationSnapshots c).
          snap_Namespace x = snap_Namespace ?sf \<and> snap_Name x = snap_Name ?sf"
    using stored by simp
  from patch_verdict [OF this nofault] FindStatusCondition_Set_verdict [of "snap_Conditions s" ?f]
  show "\<exists>m c'. markSnapshotAsFailed c s msg = (Inr m, c')
            \<and> verdictOf c' (snap_Namespace s) (snap_Name s) = Some (ConditionFalse, ''Failed'')"
    by (auto simp: markSnapshotAsFailed_def Let_def)
qed

lemma sample_outcomes:
  "calculateIntegrationPipelineRunOutcome sampleUnmarshal runSuccess = Inr True"
  "calculateIntegrationPipelineRunOutcome sampleUnmarshal runSkipped = Inr True"
  "calculateIntegrationPipelineRunOutcome sampleUnmarshal runFailure = Inr False"
  "calculateIntegrationPipelineRunOutcome sampleUnmarshal runMalformed
     = Inl (Errorf ''invalid character'')"
  by (simp_all add: runSuccess_def runSkipped_def runFailure_def runMalformed_def
        sampleTestRun_def testOutput_def sampleUnmarshal_def
        calculateIntegrationPipelineRunOutcome_def)

text \<open>
  C1, as stated, fails where an outcome check returns an error: not every run has passed,
  and no verdict is written (here one run passes and the other has a malformed test
  output; the snapshot is left without a verdict).
\<close>

theorem writeVerdict_error_counterexample:
  "calculateIntegrationPipelineRunOutcome sampleUnmarshal runMalformed \<noteq> Inr True
   \<and> writeVerdict sampleUnmarshal (sampleAdapter runMalformed)
       (sampleCluster [runSuccess, runMalformed])
       (sampleSnapshot [componentA, componentB]) [runSuccess, runMalformed]
     = (RequeueOnErrorOrStop None, sampleCluster [runSuccess, runMalformed])
   \<and> verdictOf (sampleCluster [runSuccess, runMalformed]) ''ns'' ''app1-xyz'' = None"
proof -
  have det: "determineIfAllIntegrationPipelinesPassed sampleUnmarshal [runSuccess, runMalformed]
               = Inl (Errorf ''invalid character'')"
    by (simp add: determineIfAllIntegrationPipelinesPassed_def sample_outcomes)
  have upd: "updateStatus (sampleAdapter runMalformed) (sampleCluster [runSuccess, runMalformed])
               = (None, sampleCluster [runSuccess, runMalformed])"
    by (simp add: updateStatus_def client_Status_Update_PipelineRun_def client_call_def
          sampleAdapter_def sampleCluster_def runMalformed_def runSuccess_def sampleTestRun_def)
  have v: "verdictOf (sampleCluster [runSuccess, runMalformed]) ''ns'' ''app1-xyz'' = None"
    by (simp add: verdictOf_def sampleCluster_def sampleSnapshot_def FindStatusCondition_def)
  show ?thesis
    by (simp add: writeVerdict_def det upd v sample_outcomes)
qed

text \<open>
  C1, amended. When every outcome check returns without an error, and the status patch
  reaches a stored snapshot, the operation continues and the verdict written to the
  snapshot is Passed (status true, reason \<open>Passed\<close>) if every resolved run passed, and
  Failed (status false, reason \<open>Failed\<close>) otherwise. When an outcome check returns an
  error, no snapshot is written.
\<close>

theorem writeVerdict_reduction:
  "((\<forall>pr \<in> set runs. \<exists>b. calculateIntegrationPipelineRunOutcome U pr = Inr b)
      \<and> (\<exists>x \<in> set (ApplicationSnapshots c).
            snap_Namespace x = snap_Namespace snapshot \<and> snap_Name x = snap_Name snapshot)
      \<and> fst (client_call c) = None
    \<longrightarrow> fst (writeVerdict U a c snapshot runs) = ContinueProcessing
        \<and> verdictOf (snd (writeVerdict U a c snapshot runs))
              (snap_Namespace snapshot) (snap_Name snapshot)
            = Some (if \<forall>pr \<in> set runs. calculateIntegrationPipelineRunOutcome U pr = Inr True
                    then (ConditionTrue, ''Passed'') else (ConditionFalse, ''Failed'')))
   \<and> ((\<exists>pr \<in> set runs. \<exists>e. calculateIntegrationPipelineRunOutcome U pr = Inl e)
    \<longrightarrow> ApplicationSnapshots (snd (writeVerdict U a c snapshot runs)) = ApplicationSnapshots c)"
proof (intro conjI impI)
  assume h: "(\<forall>pr \<in> set runs. \<exists>b. calculateIntegrationPipelineRunOutcome U pr = Inr b)
      \<and> (\<exists>x \<in> set (ApplicationSnapshots c).
            snap_Namespace x = snap_Namespace snapshot \<and> snap_Name x = snap_Name snapshot)
      \<and> fst (client_call c) = None"
  then have det: "determineIfAllIntegrationPipelinesPassed U runs
           = Inr (\<forall>pr \<in> set runs. calculateIntegrationPipelineRunOutcome U pr = Inr True)"
    by (intro determineIfAll_outcomes) simp
  from h have stored: "\<exists>x \<in> set (ApplicationSnapshots c).
            snap_Namespace x = snap_Namespace snapshot \<and> snap_Name x = snap_Name snapshot"
    and nofault: "fst (client_call c) = None" by simp_all
  from mark_verdict(1) [OF stored nofault, of "''All Integration Pipeline tests passed''"]
  obtain mp cp where
    passed: "markSnapshotAsPassed c snapshot ''All Integration Pipeline tests passed'' = (Inr mp, cp)"
      "verdictOf cp (snap_Namespace snapshot) (snap_Name snapshot) = Some (ConditionTrue, ''Passed'')"
    by blast
  from mark_verdict(2) [OF stored nofault, of "''Some Integration pipeline tests failed''"]
  obtain mf cf where
    failed: "markSnapshotAsFailed c snapshot ''Some Integration pipeline tests failed'' = (Inr mf, cf)"
      "verdictOf cf (snap_Namespace snapshot) (snap_Name snapshot) = Some (ConditionFalse, ''Failed'')"
    by blast
  show "fst (writeVerdict U a c snapshot runs) = ContinueProcessing"
    by (simp add: writeVerdict_def det passed failed)
  show "verdictOf (snd (writeVerdict U a c snapshot runs))
              (snap_Namespace snapshot) (snap_Name snapshot)
            = Some (if \<forall>pr \<in> set runs. calculateIntegrationPipelineRunOutcome U pr = Inr True
                    then (ConditionTrue, ''Passed'') else (ConditionFalse, ''Failed''))"
    by (simp add: writeVerdict_def det passed failed)
next
  assume "\<exists>pr \<in> set runs. \<exists>e. calculateIntegrationPipelineRunOutcome U pr = Inl e"
  from determineLoop_error [OF this, of True]
  obtain e where "determineIfAllIntegrationPipelinesPassed U runs = Inl e"
    by (auto simp: determineIfAllIntegrationPipelinesPassed_def)
  then show "ApplicationSnapshots (snd (writeVerdict U a c snapshot runs)) = ApplicationSnapshots c"
    using updateStatus_frame [of a c]
    by (cases "updateStatus a c") (simp add: writeVerdict_def)
qed


theorem writeVerdict_reduction_witness:
  "calculateIntegrationPipelineRunOutcome sampleUnmarshal runSuccess = Inr True
   \<and> calculateIntegrationPipelineRunOutcome sampleUnmarshal runSkipped = Inr True
   \<and> calculateIntegrationPipelineRunOutcome sampleUnmarshal runFailure = Inr False
   \<and> fst (client_call (sampleCluster [runSuccess, runSkipped])) = None
   \<and> verdictOf (snd (writeVerdict sampleUnmarshal (sampleAdapter runSkipped)
                        (sampleCluster [runSuccess, runSkipped])
                        (sampleSnapshot [componentA, componentB]) [runSuccess, runSkipped]))
        ''ns'' ''app1-xyz'' = Some (ConditionTrue, ''Passed'')
   \<and> verdictOf (snd (writeVerdict sampleUnmarshal (sampleAdapter runFailure)
                        (sampleCluster [runSuccess, runFailure])
                        (sampleSnapshot [componentA, componentB]) [runSuccess, runFailure]))
        ''ns'' ''app1-xyz'' = Some (ConditionFalse, ''Failed'')"
proof -
  have stored: "\<And>prs. \<exists>x \<in> set (ApplicationSnapshots (sampleCluster prs)).
      snap_Namespace x = snap_Namespace (sampleSnapshot [componentA, componentB])
      \<and> snap_Name x = snap_Name (sampleSnapshot [componentA, componentB])"
    by (simp add: sampleCluster_def)
  have nofault: "\<And>prs. fst (client_call (sampleCluster prs)) = None"
    by (simp add: client_call_def sampleCluster_def)
  have names: "snap_Namespace (sampleSnapshot [componentA, componentB]) = ''ns''"
              "snap_Name (sampleSnapshot [componentA, componentB]) = ''app1-xyz''"
    by (simp_all add: sampleSnapshot_def)
  from writeVerdict_reduction
         [of "[runSuccess, runSkipped]" sampleUnmarshal "sampleCluster [runSuccess, runSkipped]"
             "sampleSnapshot [componentA, componentB]" "sampleAdapter runSkipped"]
       writeVerdict_reduction
         [of "[runSuccess, runFailure]" sampleUnmarshal "sampleCluster [runSuccess, runFailure]"
             "sampleSnapshot [componentA, componentB]" "sampleAdapter runFailure"]
  show ?thesis
    using stored nofault by (auto simp: sample_outcomes names)
qed

subsection \<open>The latest succeeded PipelineRun of a scenario\<close>

lemma latestLoop_None:
  "latestLoop latest items = None \<longleftrightarrow> latest = None \<and> (\<forall>p \<in> set items. \<not> succeeded p)"
  by (induction items arbitrary: latest) (auto simp: succeeded_def split: option.splits)

lemma latestLoop_member:
  "latestLoop latest items = Some r \<Longrightarrow> latest = Some r \<or> (r \<in> set items \<and> succeeded r)"
proof (induction items arbitrary: latest)
  case Nil
  then show ?case by simp
next
  case (Cons p items)
  from Cons.IH [OF Cons.prems [simplified]] show ?case
    by (auto simp: succeeded_def split: if_splits option.splits)
qed

lemma latestLoop_latest:
  "latestLoop latest items = Some r \<Longrightarrow>
     (\<forall>l. latest = Some l \<longrightarrow> pr_CompletionTime l \<le> pr_CompletionTime r)
     \<and> (\<forall>p \<in> set items. succeeded p \<longrightarrow> pr_CompletionTime p \<le> pr_CompletionTime r)"
proof (induction items arbitrary: latest)
  case Nil
  then show ?case by simp
next
  case (Cons p items)
  from Cons.IH [OF Cons.prems [simplified]] show ?case
    by (auto simp: succeeded_def split: if_splits option.splits)
qed

lemma sample_call: "client_call (sampleCluster prs) = (None, sampleCluster prs)"
  by (simp add: client_call_def sampleCluster_def)

lemma sample_runs:
  "succeeded runSuccess" "succeeded runLater" "\<not> succeeded runUnfinished"
  "pr_CompletionTime runSuccess = 10" "pr_CompletionTime runLater = 30"
  by (simp_all add: succeeded_def IsTrue_def GetCondition_def runSuccess_def runLater_def
        runUnfinished_def sampleTestRun_def)

text \<open>
  C4. When the list of the test PipelineRuns of a snapshot and a scenario succeeds, the
  function returns no error; it returns nil exactly when no listed run has its completion
  condition succeeded = true; and a run it returns is a listed run that succeeded, with a
  completion time no earlier than that of any listed run that succeeded. Runs that have
  not succeeded are not considered, whatever their completion time.
\<close>

theorem getLatestPipelineRun_selects_latest_succeeded:
  assumes "client_List_PipelineRuns c (app_Namespace (application a))
             [(''pipelines.appstudio.openshift.io/type'', ''test''),
              (''test.appstudio.openshift.io/snapshot'', snap_Name applicationSnapshot),
              (''test.appstudio.openshift.io/scenario'', its_Name scenario)] = (Inr items, c')"
  shows "\<exists>found. getLatestPipelineRunForApplicationSnapshotAndScenario a c
                    applicationSnapshot scenario = (Inr found, c')
           \<and> (found = None \<longleftrightarrow> \<not> (\<exists>p \<in> set items. succeeded p))
           \<and> (\<forall>r. found = Some r \<longrightarrow>
                  r \<in> set items \<and> succeeded r
                  \<and> (\<forall>p \<in> set items. succeeded p \<longrightarrow> pr_CompletionTime p \<le> pr_CompletionTime r))"
proof -
  have run: "getLatestPipelineRunForApplicationSnapshotAndScenario a c applicationSnapshot scenario
               = (Inr (latestLoop None items), c')"
    using assms by (simp add: getLatestPipelineRunForApplicationSnapshotAndScenario_def)
  have none: "latestLoop None items = None \<longleftrightarrow> \<not> (\<exists>p \<in> set items. succeeded p)"
    by (simp add: latestLoop_None)
  have some: "r \<in> set items \<and> succeeded r
              \<and> (\<forall>p \<in> set items. succeeded p \<longrightarrow> pr_CompletionTime p \<le> pr_CompletionTime r)"
    if "latestLoop None items = Some r" for r
    using latestLoop_member [OF that] latestLoop_latest [OF that] by simp
  show ?thesis
  proof (rule exI [of _ "latestLoop None items"], intro conjI allI impI)
    show "getLatestPipelineRunForApplicationSnapshotAndScenario a c applicationSnapshot scenario
            = (Inr (latestLoop None items), c')" by (rule run)
    show "latestLoop None items = None \<longleftrightarrow> \<not> (\<exists>p \<in> set items. succeeded p)" by (rule none)
  next
    fix r assume r: "latestLoop None items = Some r"
    from some [OF r] show "r \<in> set items" by simp
    from some [OF r] show "succeeded r" by simp
    from some [OF r]
    show "\<forall>p \<in> set items. succeeded p \<longrightarrow> pr_CompletionTime p \<le> pr_CompletionTime r" by simp
  qed
qed


theorem getLatestPipelineRun_selects_latest_succeeded_witness:
  "client_List_PipelineRuns (sampleCluster [runSuccess, runLater, runUnfinished, runSkipped])
     (app_Namespace (application (sampleAdapter runSkipped)))
     [(''pipelines.appstudio.openshift.io/type'', ''test''),
      (''test.appstudio.openshift.io/snapshot'',
       snap_Name (sampleSnapshot [componentA, componentB])),
      (''test.appstudio.openshift.io/scenario'', its_Name (sampleScenario ''s1'' Map.empty))]
     = (Inr [runSuccess, runLater, runUnfinished],
        sampleCluster [runSuccess, runLater, runUnfinished, runSkipped])
   \<and> getLatestPipelineRunForApplicationSnapshotAndScenario (sampleAdapter runSkipped)
       (sampleCluster [runSuccess, runLater, runUnfinished, runSkipped])
       (sampleSnapshot [componentA, componentB]) (sampleScenario ''s1'' Map.empty)
     = (Inr (Some runLater), sampleCluster [runSuccess, runLater, runUnfinished, runSkipped])"
proof -
  let ?c = "sampleCluster [runSuccess, runLater, runUnfinished, runSkipped]"
  have list: "client_List_PipelineRuns ?c
     (app_Namespace (application (sampleAdapter runSkipped)))
     [(''pipelines.appstudio.openshift.io/type'', ''test''),
      (''test.appstudio.openshift.io/snapshot'',
       snap_Name (sampleSnapshot [componentA, componentB])),
      (''test.appstudio.openshift.io/scenario'', its_Name (sampleScenario ''s1'' Map.empty))]
     = (Inr [runSuccess, runLater, runUnfinished], ?c)"
    unfolding client_List_PipelineRuns_def sample_call
    by (simp add: sampleCluster_def sampleAdapter_def sampleSnapshot_def sampleScenario_def
          MatchingLabels_def runSuccess_def runLater_def runUnfinished_def runSkipped_def
          sampleTestRun_def)
  from getLatestPipelineRun_selects_latest_succeeded [OF list]
  obtain found where
    run: "getLatestPipelineRunForApplicationSnapshotAndScenario (sampleAdapter runSkipped) ?c
            (sampleSnapshot [componentA, componentB]) (sampleScenario ''s1'' Map.empty)
          = (Inr found, ?c)"
    and none: "found = None \<longleftrightarrow> \<not> (\<exists>p \<in> set [runSuccess, runLater, runUnfinished]. succeeded p)"
    and some: "\<forall>r. found = Some r \<longrightarrow>
                  r \<in> set [runSuccess, runLater, runUnfinished] \<and> succeeded r
                  \<and> (\<forall>p \<in> set [runSuccess, runLater, runUnfinished].
                        succeeded p \<longrightarrow> pr_CompletionTime p \<le> pr_CompletionTime r)"
    by blast
  from none obtain r where r: "found = Some r"
    using sample_runs(1) by (cases found) simp_all
  with some have "r \<in> set [runSuccess, runLater, runUnfinished]" "succeeded r"
    "pr_CompletionTime runLater \<le> pr_CompletionTime r"
    using sample_runs(2) by simp_all
  then have "r = runLater"
    using sample_runs by auto
  with r run list show ?thesis by simp
qed

subsection \<open>The required scenarios\<close>

lemma Matches_optional:
  "Matches \<lparr>req_key = ''test.appstudio.openshift.io/optional'', req_operator = OpNotIn,
            req_strValues = [''false'']\<rparr> ls
     = (ls ''test.appstudio.openshift.io/optional'' \<noteq> Some ''false'')"
  by (simp split: option.splits)

lemma getRequired_filter:
  assumes "client_call c = (None, c1)"
  shows "getRequiredIntegrationTestScenariosForApplication c app = (Inr (requiredOf c app), c1)"
proof -
  have same: "IntegrationTestScenarios c1 = IntegrationTestScenarios c"
    using assms by (auto simp: client_call_def split: list.splits)
  show ?thesis
    unfolding getRequiredIntegrationTestScenariosForApplication_def NewRequirement_def
      client_List_IntegrationTestScenarios_def requiredOf_def
    using assms same by (simp add: Matches_optional del: Matches.simps cong: conj_cong)
qed

text \<open>
  C5. When the list call succeeds, a TestScenario of the Application (its namespace, its
  name in \<^verbatim>\<open>spec.application\<close>) is among the required ones if and only if the value of
  its label \<^verbatim>\<open>test.appstudio.openshift.io/optional\<close> is not the string \<open>false\<close>: a
  scenario without the label is included, and so is one labelled \<open>true\<close>.
\<close>

theorem getRequiredIntegrationTestScenarios_inclusion:
  assumes "fst (client_call c) = None"
  shows "\<exists>required c'. getRequiredIntegrationTestScenariosForApplication c app = (Inr required, c')
           \<and> (\<forall>s \<in> set (IntegrationTestScenarios c).
                 its_Namespace s = app_Namespace app \<and> its_Application s = app_Name app \<longrightarrow>
                   (s \<in> set required
                      \<longleftrightarrow> its_Labels s ''test.appstudio.openshift.io/optional'' \<noteq> Some ''false'')
                   \<and> (its_Labels s ''test.appstudio.openshift.io/optional'' = None \<longrightarrow> s \<in> set required)
                   \<and> (its_Labels s ''test.appstudio.openshift.io/optional'' = Some ''true''
                        \<longrightarrow> s \<in> set required))"
proof -
  obtain c1 where call: "client_call c = (None, c1)"
    using assms by (cases "client_call c") auto
  have member: "s \<in> set (requiredOf c app)
                  \<longleftrightarrow> its_Labels s ''test.appstudio.openshift.io/optional'' \<noteq> Some ''false''"
    if "s \<in> set (IntegrationTestScenarios c)"
       "its_Namespace s = app_Namespace app \<and> its_Application s = app_Name app" for s
    using that by (simp add: requiredOf_def)
  have absent: "s \<in> set (requiredOf c app)"
    if "s \<in> set (IntegrationTestScenarios c)"
       "its_Namespace s = app_Namespace app \<and> its_Application s = app_Name app"
       "its_Labels s ''test.appstudio.openshift.io/optional'' = None" for s
    using that by (simp add: requiredOf_def)
  have true: "s \<in> set (requiredOf c app)"
    if "s \<in> set (IntegrationTestScenarios c)"
       "its_Namespace s = app_Namespace app \<and> its_Application s = app_Name app"
       "its_Labels s ''test.appstudio.openshift.io/optional'' = Some ''true''" for s
    using that by (simp add: requiredOf_def)
  have all: "\<forall>s \<in> set (IntegrationTestScenarios c).
                 its_Namespace s = app_Namespace app \<and> its_Application s = app_Name app \<longrightarrow>
                   (s \<in> set (requiredOf c app)
                      \<longleftrightarrow> its_Labels s ''test.appstudio.openshift.io/optional'' \<noteq> Some ''false'')
                   \<and> (its_Labels s ''test.appstudio.openshift.io/optional'' = None
                        \<longrightarrow> s \<in> set (requiredOf c app))
                   \<and> (its_Labels s ''test.appstudio.openshift.io/optional'' = Some ''true''
                        \<longrightarrow> s \<in> set (requiredOf c app))"
  proof (intro ballI impI conjI)
    fix s
    assume s: "s \<in> set (IntegrationTestScenarios c)"
       "its_Namespace s = app_Namespace app \<and> its_Application s = app_Name app"
    show "s \<in> set (requiredOf c app)
            \<longleftrightarrow> its_Labels s ''test.appstudio.openshift.io/optional'' \<noteq> Some ''false''"
      by (rule member [OF s])
    show "s \<in> set (requiredOf c app)"
      if "its_Labels s ''test.appstudio.openshift.io/optional'' = None"
      by (rule absent [OF s that])
    show "s \<in> set (requiredOf c app)"
      if "its_Labels s ''test.appstudio.openshift.io/optional'' = Some ''true''"
      by (rule true [OF s that])
  qed
  show ?thesis
    by (rule exI [of _ "requiredOf c app"], rule exI [of _ c1], rule conjI,
        rule getRequired_filter [OF call], rule all)
qed

theorem getRequiredIntegrationTestScenarios_inclusion_witness:
  "fst (client_call (sampleCluster [])) = None
   \<and> fst (getRequiredIntegrationTestScenariosForApplication (sampleCluster [])
            (application (sampleAdapter runSuccess)))
     = Inr [sampleScenario ''s1'' Map.empty,
            sampleScenario ''s2'' [''test.appstudio.openshift.io/optional'' \<mapsto> ''true'']]"
proof -
  have call: "fst (client_call (sampleCluster [])) = None"
    by (simp add: sample_call)
  have "requiredOf (sampleCluster []) (application (sampleAdapter runSuccess))
          = [sampleScenario ''s1'' Map.empty,
             sampleScenario ''s2'' [''test.appstudio.openshift.io/optional'' \<mapsto> ''true'']]"
    by (simp add: requiredOf_def sampleCluster_def sampleAdapter_def sampleScenario_def)
  with getRequired_filter [OF sample_call, of "[]" "application (sampleAdapter runSuccess)"]
    getRequiredIntegrationTestScenarios_inclusion
      [OF call, of "application (sampleAdapter runSuccess)"]
  show ?thesis using call by simp
qed

subsection \<open>The desired snapshot\<close>

lemma getAllApplicationComponents_ok:
  assumes "client_call c = (None, c1)"
  shows "getAllApplicationComponents c app = (Inr (componentsOf c app), c1)"
proof -
  have "Components c1 = Components c"
    using assms client_call_frame by blast
  with assms show ?thesis
    by (simp add: getAllApplicationComponents_def client_List_Components_def componentsOf_def)
qed

lemma prepareLoop_pullSpec:
  assumes "getImagePullSpecFromPipelineRun tk pr = Inr pullSpec"
  shows "prepareLoop tk pr cmpnt components comps
           = Inr (components
                  @ map (\<lambda>x. \<lparr>Name = comp_Name x,
                               ContainerImage = (if comp_Name x = comp_Name cmpnt then pullSpec
                                                 else comp_ContainerImage x)\<rparr>) comps)"
  by (induction comps arbitrary: components) (simp_all add: assms)

lemma prepareLoop_other:
  assumes "\<forall>x \<in> set comps. comp_Name x \<noteq> comp_Name cmpnt"
  shows "prepareLoop tk pr cmpnt components comps
           = Inr (components
                  @ map (\<lambda>x. \<lparr>Name = comp_Name x, ContainerImage = comp_ContainerImage x\<rparr>) comps)"
  using assms by (induction comps arbitrary: components) simp_all

text \<open>
  C8. When the list of the Application's Components succeeds and the build PipelineRun
  yields a pull spec, the snapshot prepared has one entry per Component of the
  Application, in the order of the list, named after the Component; the entry of the
  triggering Component carries the pull spec of the build PipelineRun, and every other
  entry the image recorded in the Component's status. When no Component of the Application
  has the triggering Component's name, every entry carries the recorded image.
\<close>

theorem prepareApplicationSnapshot_components:
  assumes "fst (client_call c) = None"
  shows "(getImagePullSpecFromPipelineRun tk pr = Inr pullSpec \<longrightarrow>
            (\<exists>snapshot c'. prepareApplicationSnapshotForPipelineRun tk a c pr cmpnt app
                              = (Inr snapshot, c')
               \<and> snap_Components snapshot
                   = map (\<lambda>x. \<lparr>Name = comp_Name x,
                                ContainerImage = (if comp_Name x = comp_Name cmpnt then pullSpec
                                                  else comp_ContainerImage x)\<rparr>)
                       (componentsOf c app)))
         \<and> ((\<forall>x \<in> set (componentsOf c app). comp_Name x \<noteq> comp_Name cmpnt) \<longrightarrow>
            (\<exists>snapshot c'. prepareApplicationSnapshotForPipelineRun tk a c pr cmpnt app
                              = (Inr snapshot, c')
               \<and> snap_Components snapshot
                   = map (\<lambda>x. \<lparr>Name = comp_Name x, ContainerImage = comp_ContainerImage x\<rparr>)
                       (componentsOf c app)))"
proof -
  obtain c1 where call: "client_call c = (None, c1)"
    using assms by (cases "client_call c") auto
  note comps = getAllApplicationComponents_ok [OF call, of app]
  show ?thesis
  proof (intro conjI impI)
    assume "getImagePullSpecFromPipelineRun tk pr = Inr pullSpec"
    from prepareLoop_pullSpec [OF this, of cmpnt "[]" "componentsOf c app"]
    show "\<exists>snapshot c'. prepareApplicationSnapshotForPipelineRun tk a c pr cmpnt app
                              = (Inr snapshot, c')
               \<and> snap_Components snapshot
                   = map (\<lambda>x. \<lparr>Name = comp_Name x,
                                ContainerImage = (if comp_Name x = comp_Name cmpnt then pullSpec
                                                  else comp_ContainerImage x)\<rparr>)
                       (componentsOf c app)"
      by (simp add: prepareApplicationSnapshotForPipelineRun_def comps)
  next
    assume "\<forall>x \<in> set (componentsOf c app). comp_Name x \<noteq> comp_Name cmpnt"
    from prepareLoop_other [OF this, of tk pr "[]"]
    show "\<exists>snapshot c'. prepareApplicationSnapshotForPipelineRun tk a c pr cmpnt app
                              = (Inr snapshot, c')
               \<and> snap_Components snapshot
                   = map (\<lambda>x. \<lparr>Name = comp_Name x, ContainerImage = comp_ContainerImage x\<rparr>)
                       (componentsOf c app)"
      by (simp add: prepareApplicationSnapshotForPipelineRun_def comps)
  qed
qed

theorem prepareApplicationSnapshot_components_witness:
  "fst (client_call (sampleCluster [])) = None
   \<and> getImagePullSpecFromPipelineRun sampleTekton runBuild = Inr ''registry.example.com@sha256:abc''
   \<and> (\<exists>snapshot c'.
         prepareApplicationSnapshotForPipelineRun sampleTekton (sampleAdapter runBuild)
           (sampleCluster []) runBuild (component (sampleAdapter runBuild))
           (application (sampleAdapter runBuild)) = (Inr snapshot, c')
         \<and> snap_Components snapshot
             = [\<lparr>Name = ''A'', ContainerImage = ''registry.example.com@sha256:abc''\<rparr>,
                \<lparr>Name = ''B'', ContainerImage = ''r/b@sha2''\<rparr>])"
proof -
  have call: "fst (client_call (sampleCluster [])) = None"
    by (simp add: sample_call)
  have spec: "getImagePullSpecFromPipelineRun sampleTekton runBuild
                = Inr ''registry.example.com@sha256:abc''"
    by (simp add: getImagePullSpecFromPipelineRun_def sampleTekton_def Split_def)
  have comps: "componentsOf (sampleCluster []) (application (sampleAdapter runBuild))
                 = [sampleComponent ''A'' ''app1'' ''r/a@sha1'',
                    sampleComponent ''B'' ''app1'' ''r/b@sha2'']"
    by (simp add: componentsOf_def sampleCluster_def sampleAdapter_def sampleComponent_def)
  have mapped: "map (\<lambda>x. \<lparr>Name = comp_Name x,
                    ContainerImage = (if comp_Name x = comp_Name (component (sampleAdapter runBuild))
                                      then ''registry.example.com@sha256:abc''
                                      else comp_ContainerImage x)\<rparr>)
                  (componentsOf (sampleCluster []) (application (sampleAdapter runBuild)))
             = [\<lparr>Name = ''A'', ContainerImage = ''registry.example.com@sha256:abc''\<rparr>,
                \<lparr>Name = ''B'', ContainerImage = ''r/b@sha2''\<rparr>]"
    unfolding comps by (simp add: sampleAdapter_def sampleComponent_def)
  from prepareApplicationSnapshot_components
         [OF call, of sampleTekton runBuild "''registry.example.com@sha256:abc''"
            "sampleAdapter runBuild" "component (sampleAdapter runBuild)"
            "application (sampleAdapter runBuild)", THEN conjunct1, THEN mp, OF spec]
  have "\<exists>snapshot c'.
         prepareApplicationSnapshotForPipelineRun sampleTekton (sampleAdapter runBuild)
           (sampleCluster []) runBuild (component (sampleAdapter runBuild))
           (application (sampleAdapter runBuild)) = (Inr snapshot, c')
         \<and> snap_Components snapshot
             = [\<lparr>Name = ''A'', ContainerImage = ''registry.example.com@sha256:abc''\<rparr>,
                \<lparr>Name = ''B'', ContainerImage = ''r/b@sha2''\<rparr>]"
    unfolding mapped .
  with call spec show ?thesis by (intro conjI)
qed

subsection \<open>A test PipelineRun without a snapshot label\<close>

text \<open>
  C9, as stated, fails: for a test PipelineRun with no snapshot label the operation answers
  \<^verbatim>\<open>RequeueWithError\<close>, and the cluster is left as it was (no status is written).
\<close>

theorem EnsurePassedAllTests_retries_counterexample:
  "pr_Labels runUnlabelled ''test.appstudio.openshift.io/snapshot'' = None
   \<and> fst (EnsureApplicationSnapshotPassedAllTests sampleTekton sampleUnmarshal
            (sampleAdapter runUnlabelled) (sampleCluster [runUnlabelled]))
     = RequeueWithError (Errorf ''the pipeline has no snapshot associated with it'')
   \<and> snd (EnsureApplicationSnapshotPassedAllTests sampleTekton sampleUnmarshal
            (sampleAdapter runUnlabelled) (sampleCluster [runUnlabelled]))
     = sampleCluster [runUnlabelled]"
  by (simp add: EnsureApplicationSnapshotPassedAllTests_def
        getApplicationSnapshotFromPipelineRun_def sampleTekton_def sampleAdapter_def
        runUnlabelled_def samplePipelineRun_def)

text \<open>
  C9, amended. For a test PipelineRun that carries no snapshot label, the operation returns
  the retry-with-error result with the error \<open>the pipeline has no snapshot associated
  with it\<close>, and makes no call to the store.
\<close>

theorem EnsurePassedAllTests_no_snapshot_label:
  assumes "IsIntegrationPipelineRun tk (pipelineRun a)"
      and "GetTypeFromPipelineRun tk (pipelineRun a) = Inr pipelineType"
      and "pr_Labels (pipelineRun a) (pipelineType @ ''.appstudio.openshift.io/snapshot'') = None"
  shows "EnsureApplicationSnapshotPassedAllTests tk U a c
           = (RequeueWithError (Errorf ''the pipeline has no snapshot associated with it''), c)"
  using assms
  by (simp add: EnsureApplicationSnapshotPassedAllTests_def
        getApplicationSnapshotFromPipelineRun_def)


theorem EnsurePassedAllTests_no_snapshot_label_witness:
  "IsIntegrationPipelineRun sampleTekton (pipelineRun (sampleAdapter runUnlabelled))
   \<and> GetTypeFromPipelineRun sampleTekton (pipelineRun (sampleAdapter runUnlabelled)) = Inr ''test''
   \<and> pr_Labels (pipelineRun (sampleAdapter runUnlabelled))
        (''test'' @ ''.appstudio.openshift.io/snapshot'') = None
   \<and> EnsureApplicationSnapshotPassedAllTests sampleTekton sampleUnmarshal
        (sampleAdapter runUnlabelled) (sampleCluster [runUnlabelled])
     = (RequeueWithError (Errorf ''the pipeline has no snapshot associated with it''),
        sampleCluster [runUnlabelled])"
proof -
  have kind: "IsIntegrationPipelineRun sampleTekton (pipelineRun (sampleAdapter runUnlabelled))"
    by (simp add: sampleTekton_def sampleAdapter_def runUnlabelled_def samplePipelineRun_def)
  have type: "GetTypeFromPipelineRun sampleTekton (pipelineRun (sampleAdapter runUnlabelled))
                = Inr ''test''"
    by (simp add: sampleTekton_def sampleAdapter_def runUnlabelled_def samplePipelineRun_def)
  have nolabel: "pr_Labels (pipelineRun (sampleAdapter runUnlabelled))
                   (''test'' @ ''.appstudio.openshift.io/snapshot'') = None"
    by (simp add: sampleAdapter_def runUnlabelled_def samplePipelineRun_def)
  from EnsurePassedAllTests_no_snapshot_label [OF kind type nolabel]
  show ?thesis using kind type nolabel by simp
qed

subsection \<open>Reads leave the objects as they are\<close>

lemma sameObjects_refl: "sameObjects c c"
  by (simp add: sameObjects_def)

lemma sameObjects_trans: "sameObjects c c' \<Longrightarrow> sameObjects c' c'' \<Longrightarrow> sameObjects c c''"
  by (simp add: sameObjects_def)

lemma client_call_same: "client_call c = (f, c') \<Longrightarrow> sameObjects c c'"
  by (auto simp: client_call_def sameObjects_def split: list.splits)

lemma client_Get_ApplicationSnapshot_same:
  "client_Get_ApplicationSnapshot c namespace name = (r, c') \<Longrightarrow> sameObjects c c'"
  unfolding client_Get_ApplicationSnapshot_def
  by (cases "client_call c")
     (auto split: option.splits dest: client_call_same)

lemma getApplicationSnapshotFromPipelineRun_same:
  "getApplicationSnapshotFromPipelineRun c pr pipelineType = (r, c') \<Longrightarrow> sameObjects c c'"
  unfolding getApplicationSnapshotFromPipelineRun_def Let_def
  by (cases "pr_Labels pr (pipelineType @ ''.appstudio.openshift.io/snapshot'')")
     (simp_all add: sameObjects_refl client_Get_ApplicationSnapshot_same)

lemma client_List_IntegrationTestScenarios_same:
  "client_List_IntegrationTestScenarios c namespace app sel = (r, c') \<Longrightarrow> sameObjects c c'"
  unfolding client_List_IntegrationTestScenarios_def
  by (cases "client_call c")
     (auto split: option.splits dest: client_call_same)

lemma getRequired_same:
  "getRequiredIntegrationTestScenariosForApplication c app = (r, c') \<Longrightarrow> sameObjects c c'"
  unfolding getRequiredIntegrationTestScenariosForApplication_def
  by (cases "NewRequirement ''test.appstudio.openshift.io/optional'' OpNotIn [''false'']")
     (simp_all add: sameObjects_refl client_List_IntegrationTestScenarios_same)

lemma client_List_PipelineRuns_same:
  "client_List_PipelineRuns c namespace want = (r, c') \<Longrightarrow> sameObjects c c'"
  unfolding client_List_PipelineRuns_def
  by (cases "client_call c")
     (auto split: option.splits dest: client_call_same)

lemma getLatest_same:
  "getLatestPipelineRunForApplicationSnapshotAndScenario a c snapshot scenario = (r, c')
     \<Longrightarrow> sameObjects c c'"
  unfolding getLatestPipelineRunForApplicationSnapshotAndScenario_def
  by (auto split: prod.splits sum.splits dest: client_List_PipelineRuns_same)

lemma getAllLoop_same:
  "getAllLoop a snapshot acc c scenarios = (r, c') \<Longrightarrow> sameObjects c c'"
proof (induction scenarios arbitrary: acc c)
  case Nil
  then show ?case by (simp add: sameObjects_refl)
next
  case (Cons scenario rest)
  show ?case
  proof (cases "label (pr_Labels (pipelineRun a)) ''test.appstudio.openshift.io/scenario''
                  \<noteq> its_Name scenario")
    case False
    with Cons.prems Cons.IH show ?thesis by simp
  next
    case True
    obtain r1 c1 where latest:
      "getLatestPipelineRunForApplicationSnapshotAndScenario a c snapshot scenario = (r1, c1)"
      by (cases "getLatestPipelineRunForApplicationSnapshotAndScenario a c snapshot scenario")
    then have s1: "sameObjects c c1" by (rule getLatest_same)
    show ?thesis
    proof (cases r1)
      case (Inl err)
      with Cons.prems True latest s1 show ?thesis by simp
    next
      case (Inr found)
      with Cons.prems True latest have "\<exists>acc'. getAllLoop a snapshot acc' c1 rest = (r, c')"
        by (cases found) (simp_all, (rule exI, assumption)+)
      then obtain acc' where "getAllLoop a snapshot acc' c1 rest = (r, c')" ..
      from Cons.IH [OF this] s1 show ?thesis by (rule sameObjects_trans [rotated])
    qed
  qed
qed

lemma getAllLoop_length:
  "getAllLoop a snapshot acc c scenarios = (Inr runs, c')
     \<Longrightarrow> length runs \<le> length acc + length scenarios"
proof (induction scenarios arbitrary: acc c)
  case Nil
  then show ?case by simp
next
  case (Cons scenario rest)
  show ?case
  proof (cases "label (pr_Labels (pipelineRun a)) ''test.appstudio.openshift.io/scenario''
                  \<noteq> its_Name scenario")
    case False
    with Cons.prems have "getAllLoop a snapshot (acc @ [pipelineRun a]) c rest = (Inr runs, c')"
      by simp
    from Cons.IH [OF this] show ?thesis by simp
  next
    case True
    obtain r1 c1 where latest:
      "getLatestPipelineRunForApplicationSnapshotAndScenario a c snapshot scenario = (r1, c1)"
      by (cases "getLatestPipelineRunForApplicationSnapshotAndScenario a c snapshot scenario")
    show ?thesis
    proof (cases r1)
      case (Inl err)
      with Cons.prems True latest show ?thesis by simp
    next
      case (Inr found)
      show ?thesis
      proof (cases found)
        case None
        with Cons.prems True latest Inr have "getAllLoop a snapshot acc c1 rest = (Inr runs, c')"
          by simp
        from Cons.IH [OF this] show ?thesis by simp
      next
        case (Some p)
        with Cons.prems True latest Inr
        have "getAllLoop a snapshot (acc @ [p]) c1 rest = (Inr runs, c')"
          by simp
        from Cons.IH [OF this] show ?thesis by simp
      qed
    qed
  qed
qed

subsection \<open>The completeness check\<close>

text \<open>
  C3. In a run of the operation that gets as far as the resolved PipelineRuns, there are
  never more resolved runs than required scenarios; when the two numbers differ, the
  operation returns Continue in the state left by its reads, with the objects of the
  cluster as they were; so a run of the operation that has changed a snapshot had as
  many resolved runs as required scenarios.
\<close>

theorem completeness_gate:
  assumes kind: "IsIntegrationPipelineRun tk (pipelineRun a)"
      and type: "GetTypeFromPipelineRun tk (pipelineRun a) = Inr pipelineType"
      and snap: "getApplicationSnapshotFromPipelineRun c (pipelineRun a) pipelineType
                   = (Inr snapshot, c1)"
      and scen: "getRequiredIntegrationTestScenariosForApplication c1 (application a)
                   = (Inr scenarios, c2)"
      and runs: "getAllPipelineRunsForApplicationSnapshot a c2 snapshot scenarios
                   = (Inr runs, c3)"
  shows "(length runs \<noteq> length scenarios \<longrightarrow>
            EnsureApplicationSnapshotPassedAllTests tk U a c = (ContinueProcessing, c3)
            \<and> sameObjects c c3)
         \<and> (ApplicationSnapshots (snd (EnsureApplicationSnapshotPassedAllTests tk U a c))
               \<noteq> ApplicationSnapshots c \<longrightarrow> length runs = length scenarios)
         \<and> length runs \<le> length scenarios"
proof -
  have same: "sameObjects c c3"
    using getApplicationSnapshotFromPipelineRun_same [OF snap] getRequired_same [OF scen]
      getAllLoop_same [OF runs [unfolded getAllPipelineRunsForApplicationSnapshot_def]]
    by (simp add: sameObjects_def)
  have gate: "EnsureApplicationSnapshotPassedAllTests tk U a c = (ContinueProcessing, c3)"
    if "length runs \<noteq> length scenarios"
    using kind type snap scen runs that
    by (simp add: EnsureApplicationSnapshotPassedAllTests_def)
  have bound: "length runs \<le> length scenarios"
    using getAllLoop_length [OF runs [unfolded getAllPipelineRunsForApplicationSnapshot_def]]
    by simp
  have only: "length runs = length scenarios"
    if changed: "ApplicationSnapshots (snd (EnsureApplicationSnapshotPassedAllTests tk U a c))
                   \<noteq> ApplicationSnapshots c"
  proof (rule ccontr)
    assume "length runs \<noteq> length scenarios"
    from gate [OF this] same changed show False by (simp add: sameObjects_def)
  qed
  from same gate bound only show ?thesis by (intro conjI impI) simp_all
qed


theorem completeness_gate_witness:
  "IsIntegrationPipelineRun sampleTekton (pipelineRun (sampleAdapter runSuccess))
   \<and> getAllPipelineRunsForApplicationSnapshot (sampleAdapter runSuccess)
        (sampleCluster [runSuccess]) (sampleSnapshot [componentA, componentB])
        [sampleScenario ''s1'' Map.empty,
         sampleScenario ''s2'' [''test.appstudio.openshift.io/optional'' \<mapsto> ''true'']]
     = (Inr [runSuccess], sampleCluster [runSuccess])
   \<and> EnsureApplicationSnapshotPassedAllTests sampleTekton sampleUnmarshal
        (sampleAdapter runSuccess) (sampleCluster [runSuccess])
     = (ContinueProcessing, sampleCluster [runSuccess])"
proof -
  let ?c = "sampleCluster [runSuccess]"
  let ?a = "sampleAdapter runSuccess"
  let ?scenarios = "[sampleScenario ''s1'' Map.empty,
         sampleScenario ''s2'' [''test.appstudio.openshift.io/optional'' \<mapsto> ''true'']]"
  have kind: "IsIntegrationPipelineRun sampleTekton (pipelineRun ?a)"
    by (simp add: sampleTekton_def sampleAdapter_def runSuccess_def sampleTestRun_def)
  have type: "GetTypeFromPipelineRun sampleTekton (pipelineRun ?a) = Inr ''test''"
    by (simp add: sampleTekton_def sampleAdapter_def runSuccess_def sampleTestRun_def)
  have snap: "getApplicationSnapshotFromPipelineRun ?c (pipelineRun ?a) ''test''
                = (Inr (sampleSnapshot [componentA, componentB]), ?c)"
    unfolding getApplicationSnapshotFromPipelineRun_def client_Get_ApplicationSnapshot_def
      sample_call
    by (simp add: sampleAdapter_def runSuccess_def sampleTestRun_def sampleCluster_def
          sampleSnapshot_def)
  have "requiredOf ?c (application ?a) = ?scenarios"
    by (simp add: requiredOf_def sampleCluster_def sampleAdapter_def sampleScenario_def)
  with getRequired_filter [OF sample_call, of "[runSuccess]" "application ?a"]
  have scen: "getRequiredIntegrationTestScenariosForApplication ?c (application ?a)
                = (Inr ?scenarios, ?c)"
    by simp
  have list: "client_List_PipelineRuns ?c ''ns''
                [(''pipelines.appstudio.openshift.io/type'', ''test''),
                 (''test.appstudio.openshift.io/snapshot'', ''app1-xyz''),
                 (''test.appstudio.openshift.io/scenario'', ''s2'')] = (Inr [], ?c)"
    unfolding client_List_PipelineRuns_def sample_call
    by (simp add: sampleCluster_def MatchingLabels_def runSuccess_def sampleTestRun_def)
  have latest: "getLatestPipelineRunForApplicationSnapshotAndScenario ?a ?c
                  (sampleSnapshot [componentA, componentB])
                  (sampleScenario ''s2'' [''test.appstudio.openshift.io/optional'' \<mapsto> ''true''])
                = (Inr None, ?c)"
    unfolding getLatestPipelineRunForApplicationSnapshotAndScenario_def
    using list by (simp add: sampleAdapter_def sampleSnapshot_def sampleScenario_def)
  have trigger: "label (pr_Labels (pipelineRun ?a)) ''test.appstudio.openshift.io/scenario'' = ''s1''"
    by (simp add: label_def sampleAdapter_def runSuccess_def sampleTestRun_def)
  have names: "its_Name (sampleScenario ''s1'' Map.empty) = ''s1''"
    "its_Name (sampleScenario ''s2'' [''test.appstudio.openshift.io/optional'' \<mapsto> ''true'']) = ''s2''"
    by (simp_all add: sampleScenario_def)
  have runs: "getAllPipelineRunsForApplicationSnapshot ?a ?c
                (sampleSnapshot [componentA, componentB]) ?scenarios = (Inr [runSuccess], ?c)"
    unfolding getAllPipelineRunsForApplicationSnapshot_def
    by (simp add: trigger names latest) (simp add: sampleAdapter_def)
  from completeness_gate [OF kind type snap scen runs, of sampleUnmarshal]
  show ?thesis using kind runs by simp
qed

text \<open>
  When the two numbers are equal, the operation goes on to the reduction of the outcomes
  and the write of the verdict.
\<close>

lemma EnsurePassedAllTests_complete:
  assumes "IsIntegrationPipelineRun tk (pipelineRun a)"
      and "GetTypeFromPipelineRun tk (pipelineRun a) = Inr pipelineType"
      and "getApplicationSnapshotFromPipelineRun c (pipelineRun a) pipelineType
             = (Inr snapshot, c1)"
      and "getRequiredIntegrationTestScenariosForApplication c1 (application a)
             = (Inr scenarios, c2)"
      and "getAllPipelineRunsForApplicationSnapshot a c2 snapshot scenarios = (Inr runs, c3)"
      and "length runs = length scenarios"
  shows "EnsureApplicationSnapshotPassedAllTests tk U a c = writeVerdict U a c3 snapshot runs"
  using assms by (simp add: EnsureApplicationSnapshotPassedAllTests_def)

subsection \<open>Ensuring a snapshot twice\<close>

lemma client_call_ok:
  assumes "\<forall>f \<in> set (take (Suc n) (failures c)). f = None"
  shows "\<exists>c1. client_call c = (None, c1) \<and> (\<forall>f \<in> set (take n (failures c1)). f = None)"
proof (cases "failures c")
  case Nil
  then show ?thesis by (simp add: client_call_def)
next
  case (Cons f fs)
  with assms show ?thesis by (simp add: client_call_def)
qed

lemma getAllApplicationSnapshots_result:
  assumes "getAllApplicationSnapshots a c = (r, c')"
  shows "\<exists>f. client_call c = (f, c')
           \<and> r = (case f of Some err \<Rightarrow> Inl err | None \<Rightarrow> Inr (snapshotsOf c (application a)))"
proof -
  obtain f c1 where call: "client_call c = (f, c1)" by (cases "client_call c")
  then have "ApplicationSnapshots c1 = ApplicationSnapshots c"
    using client_call_frame by blast
  with assms call show ?thesis
    by (cases f)
       (simp_all add: getAllApplicationSnapshots_def client_List_ApplicationSnapshots_def
          snapshotsOf_def)
qed

lemma getAllApplicationComponents_result:
  assumes "getAllApplicationComponents c app = (r, c')"
  shows "\<exists>f. client_call c = (f, c')
           \<and> r = (case f of Some err \<Rightarrow> Inl err | None \<Rightarrow> Inr (componentsOf c app))"
proof -
  obtain f c1 where call: "client_call c = (f, c1)" by (cases "client_call c")
  then have "Components c1 = Components c"
    using client_call_frame by blast
  with assms call show ?thesis
    by (cases f)
       (simp_all add: getAllApplicationComponents_def client_List_Components_def
          componentsOf_def)
qed

lemma prepare_result:
  assumes "prepareApplicationSnapshotForPipelineRun tk a c pr cmpnt app = (r, c')"
  shows "\<exists>f. client_call c = (f, c')
           \<and> (f = None \<longrightarrow>
                r = (case prepareLoop tk pr cmpnt [] (componentsOf c app) of
                       Inl err \<Rightarrow> Inl err
                     | Inr components \<Rightarrow>
                         Inr \<lparr>snap_Name = [], snap_GenerateName = app_Name app @ ''-'',
                              snap_Namespace = app_Namespace app,
                              snap_Labels = [''component'' \<mapsto> comp_Name (component a)],
                              snap_Application = app_Name app, snap_Components = components,
                              snap_Conditions = []\<rparr>))
           \<and> (f \<noteq> None \<longrightarrow> (\<exists>err. r = Inl err))"
proof -
  obtain r0 c0 where list: "getAllApplicationComponents c app = (r0, c0)"
    by (cases "getAllApplicationComponents c app")
  from getAllApplicationComponents_result [OF list] obtain f where
    f: "client_call c = (f, c0)"
       "r0 = (case f of Some err \<Rightarrow> Inl err | None \<Rightarrow> Inr (componentsOf c app))"
    by blast
  show ?thesis
  proof (cases f)
    case None
    with assms list f show ?thesis
      by (cases "prepareLoop tk pr cmpnt [] (componentsOf c app)")
         (simp_all add: prepareApplicationSnapshotForPipelineRun_def)
  next
    case (Some err)
    with assms list f show ?thesis
      by (simp add: prepareApplicationSnapshotForPipelineRun_def) (metis fst_conv)
  qed
qed


lemma prepare_same:
  "prepareApplicationSnapshotForPipelineRun tk a c pr cmpnt app = (r, c') \<Longrightarrow> sameObjects c c'"
  using prepare_result client_call_same by blast

lemma prepare_again:
  assumes first: "prepareApplicationSnapshotForPipelineRun tk a c pr cmpnt app = (Inr e, c1)"
      and again: "prepareApplicationSnapshotForPipelineRun tk a d pr cmpnt app = (r, d1)"
      and same: "Components d = Components c"
  shows "(\<exists>err. r = Inl err) \<or> r = Inr e"
    and "fst (client_call d) = None \<Longrightarrow> r = Inr e"
proof -
  from prepare_result [OF first] obtain f where
    f: "client_call c = (f, c1)"
       "f = None \<longrightarrow>
          Inr e = (case prepareLoop tk pr cmpnt [] (componentsOf c app) of
                       Inl err \<Rightarrow> Inl err
                     | Inr components \<Rightarrow>
                         Inr \<lparr>snap_Name = [], snap_GenerateName = app_Name app @ ''-'',
                              snap_Namespace = app_Namespace app,
                              snap_Labels = [''component'' \<mapsto> comp_Name (component a)],
                              snap_Application = app_Name app, snap_Components = components,
                              snap_Conditions = []\<rparr>)"
       "f \<noteq> None \<longrightarrow> (\<exists>err. Inr e = Inl err)"
    by blast
  then have fNone: "f = None" by auto
  from prepare_result [OF again] obtain g where
    g: "client_call d = (g, d1)"
       "g = None \<longrightarrow>
          r = (case prepareLoop tk pr cmpnt [] (componentsOf d app) of
                       Inl err \<Rightarrow> Inl err
                     | Inr components \<Rightarrow>
                         Inr \<lparr>snap_Name = [], snap_GenerateName = app_Name app @ ''-'',
                              snap_Namespace = app_Namespace app,
                              snap_Labels = [''component'' \<mapsto> comp_Name (component a)],
                              snap_Application = app_Name app, snap_Components = components,
                              snap_Conditions = []\<rparr>)"
       "g \<noteq> None \<longrightarrow> (\<exists>err. r = Inl err)"
    by blast
  have comps: "componentsOf d app = componentsOf c app"
    using same by (simp add: componentsOf_def)
  from f(2) fNone g(2) comps have ok: "g = None \<longrightarrow> r = Inr e" by simp
  with g(3) show "(\<exists>err. r = Inl err) \<or> r = Inr e" by (cases g) simp_all
  from ok g(1) show "r = Inr e" if "fst (client_call d) = None" using that by simp
qed

lemma prepare_fields:
  assumes "prepareApplicationSnapshotForPipelineRun tk a c pr cmpnt app = (Inr e, c1)"
  shows "snap_Namespace e = app_Namespace app \<and> snap_Application e = app_Name app
         \<and> snap_Name e = []"
proof -
  from prepare_result [OF assms] obtain f where
    f: "f = None \<longrightarrow>
          Inr e = (case prepareLoop tk pr cmpnt [] (componentsOf c app) of
                       Inl err \<Rightarrow> Inl err
                     | Inr components \<Rightarrow>
                         Inr \<lparr>snap_Name = [], snap_GenerateName = app_Name app @ ''-'',
                              snap_Namespace = app_Namespace app,
                              snap_Labels = [''component'' \<mapsto> comp_Name (component a)],
                              snap_Application = app_Name app, snap_Components = components,
                              snap_Conditions = []\<rparr>)"
       "f \<noteq> None \<longrightarrow> (\<exists>err. Inr e = Inl err)"
    by blast
  then have "f = None" by auto
  with f(1) show ?thesis
    by (cases "prepareLoop tk pr cmpnt [] (componentsOf c app)") auto
qed

lemma client_Create_result:
  assumes "client_Create_ApplicationSnapshot c s = (r, c')"
  shows "Components c' = Components c
         \<and> (case r of
               Inl err \<Rightarrow> ApplicationSnapshots c' = ApplicationSnapshots c
             | Inr new \<Rightarrow> ApplicationSnapshots c' = ApplicationSnapshots c @ [new]
                          \<and> snap_Components new = snap_Components s
                          \<and> snap_Namespace new = snap_Namespace s
                          \<and> snap_Application new = snap_Application s)"
proof -
  obtain f c1 where call: "client_call c = (f, c1)" by (cases "client_call c")
  from client_call_frame [OF this]
  have same: "Components c1 = Components c" "ApplicationSnapshots c1 = ApplicationSnapshots c"
    by simp_all
  show ?thesis
  proof (cases f)
    case (Some err)
    with assms call same show ?thesis
      by (auto simp: client_Create_ApplicationSnapshot_def)
  next
    case None
    with assms call same show ?thesis
      unfolding client_Create_ApplicationSnapshot_def Let_def
      by (auto split: if_splits)
  qed
qed

lemma findMatching_result:
  assumes "findMatchingApplicationSnapshot tk a c = (r, c')"
  shows "sameObjects c c'
         \<and> (case r of
               Inl err \<Rightarrow> True
             | Inr found \<Rightarrow>
                 \<exists>e cb. prepareApplicationSnapshotForPipelineRun tk a c
                           (pipelineRun a) (component a) (application a) = (Inr e, cb)
                   \<and> found = find (compareApplicationSnapshots e) (snapshotsOf c (application a)))"
proof -
  obtain r1 c1 where prep: "prepareApplicationSnapshotForPipelineRun tk a c
                           (pipelineRun a) (component a) (application a) = (r1, c1)"
    by (cases "prepareApplicationSnapshotForPipelineRun tk a c
                           (pipelineRun a) (component a) (application a)")
  then have s1: "sameObjects c c1" by (rule prepare_same)
  show ?thesis
  proof (cases r1)
    case (Inl err)
    with assms prep s1 show ?thesis by (auto simp: findMatchingApplicationSnapshot_def)
  next
    case (Inr e)
    obtain r2 c2 where list: "getAllApplicationSnapshots a c1 = (r2, c2)"
      by (cases "getAllApplicationSnapshots a c1")
    from getAllApplicationSnapshots_result [OF list] obtain f where
      f: "client_call c1 = (f, c2)"
         "r2 = (case f of Some err \<Rightarrow> Inl err | None \<Rightarrow> Inr (snapshotsOf c1 (application a)))"
      by blast
    from client_call_same [OF f(1)] s1 have s2: "sameObjects c c2"
      by (rule sameObjects_trans [rotated])
    have snaps: "snapshotsOf c1 (application a) = snapshotsOf c (application a)"
      using s1 by (simp add: snapshotsOf_def sameObjects_def)
    show ?thesis
    proof (cases f)
      case (Some err)
      with assms prep Inr list f s2 show ?thesis
        by (auto simp: findMatchingApplicationSnapshot_def)
    next
      case None
      with assms prep Inr list f s2 snaps show ?thesis
        by (auto simp: findMatchingApplicationSnapshot_def)
    qed
  qed
qed


lemma compare_same_components:
  "snap_Components x = snap_Components e \<Longrightarrow> compareApplicationSnapshots e x"
  by (simp add: compareApplicationSnapshots_set)

lemma Ensure_first:
  assumes build: "IsBuildPipelineRun tk (pipelineRun a)"
      and first: "EnsureApplicationSnapshotExists tk a c = (ContinueProcessing, c1)"
  shows "\<exists>e cb. prepareApplicationSnapshotForPipelineRun tk a c
                   (pipelineRun a) (component a) (application a) = (Inr e, cb)
           \<and> Components c1 = Components c
           \<and> (\<exists>x \<in> set (snapshotsOf c1 (application a)). compareApplicationSnapshots e x)
           \<and> (ApplicationSnapshots c1 = ApplicationSnapshots c
                \<or> (\<exists>new. ApplicationSnapshots c1 = ApplicationSnapshots c @ [new]
                      \<and> filter (compareApplicationSnapshots e) (snapshotsOf c1 (application a))
                          = [new]))"
proof -
  obtain r ca where fm: "findMatchingApplicationSnapshot tk a c = (r, ca)"
    by (cases "findMatchingApplicationSnapshot tk a c")
  from findMatching_result [OF fm] have sa: "sameObjects c ca"
    and shape: "case r of Inl err \<Rightarrow> True
             | Inr found \<Rightarrow>
                 \<exists>e cb. prepareApplicationSnapshotForPipelineRun tk a c
                           (pipelineRun a) (component a) (application a) = (Inr e, cb)
                   \<and> found = find (compareApplicationSnapshots e) (snapshotsOf c (application a))"
    by simp_all
  show ?thesis
  proof (cases r)
    case (Inl err)
    with build first fm show ?thesis by (simp add: EnsureApplicationSnapshotExists_def)
  next
    case (Inr found)
    with shape obtain e cb where
      prep: "prepareApplicationSnapshotForPipelineRun tk a c
               (pipelineRun a) (component a) (application a) = (Inr e, cb)"
      and found: "found = find (compareApplicationSnapshots e) (snapshotsOf c (application a))"
      by auto
    show ?thesis
    proof (cases found)
      case (Some x)
      with build first fm Inr have c1: "c1 = ca"
        by (simp add: EnsureApplicationSnapshotExists_def)
      from Some found have "x \<in> set (snapshotsOf c (application a))"
        "compareApplicationSnapshots e x"
        by (auto simp: find_Some_iff)
      moreover have "snapshotsOf c1 (application a) = snapshotsOf c (application a)"
        using sa c1 by (simp add: snapshotsOf_def sameObjects_def)
      ultimately show ?thesis
        using prep sa c1 by (auto simp: sameObjects_def)
    next
      case None
      obtain r' cc where cr: "createApplicationSnapshotForPipelineRun tk a ca
                       (pipelineRun a) (component a) (application a) = (r', cc)"
        by (cases "createApplicationSnapshotForPipelineRun tk a ca
                       (pipelineRun a) (component a) (application a)")
      show ?thesis
      proof (cases r')
        case (Inl err)
        with build first fm Inr None cr show ?thesis
          by (simp add: EnsureApplicationSnapshotExists_def split: prod.splits)
      next
        case new: (Inr new)
        with build first fm Inr None cr have c1: "c1 = cc"
          by (simp add: EnsureApplicationSnapshotExists_def)
        obtain r2 cd where again: "prepareApplicationSnapshotForPipelineRun tk a ca
               (pipelineRun a) (component a) (application a) = (r2, cd)"
          by (cases "prepareApplicationSnapshotForPipelineRun tk a ca
               (pipelineRun a) (component a) (application a)")
        have compsa: "Components ca = Components c"
          using sa by (simp add: sameObjects_def)
        from prepare_again(1) [OF prep again compsa] cr new again
        have r2: "r2 = Inr e"
          by (auto simp: createApplicationSnapshotForPipelineRun_def)
        with cr new again have create: "client_Create_ApplicationSnapshot cd e = (Inr new, cc)"
          by (simp add: createApplicationSnapshotForPipelineRun_def)
        from prepare_same [OF again] sa have sd: "sameObjects c cd"
          by (rule sameObjects_trans [rotated])
        from client_Create_result [OF create] sd have
          comps: "Components cc = Components c"
          and snaps: "ApplicationSnapshots cc = ApplicationSnapshots c @ [new]"
          and fields: "snap_Components new = snap_Components e"
            "snap_Namespace new = snap_Namespace e" "snap_Application new = snap_Application e"
          by (simp_all add: sameObjects_def)
        from prepare_fields [OF prep] fields have scoped:
          "snap_Namespace new = app_Namespace (application a)"
          "snap_Application new = app_Name (application a)"
          by simp_all
        have of: "snapshotsOf cc (application a) = snapshotsOf c (application a) @ [new]"
          using snaps scoped by (simp add: snapshotsOf_def)
        from None found have nomatch:
          "filter (compareApplicationSnapshots e) (snapshotsOf c (application a)) = []"
          by (simp add: find_None_iff filter_empty_conv)
        have match: "compareApplicationSnapshots e new"
          using fields(1) by (rule compare_same_components)
        from prep comps snaps of nomatch match c1 show ?thesis by auto
      qed
    qed
  qed
qed


lemma find_filter_single: "filter P xs = [x] \<Longrightarrow> find P xs = Some x"
proof (induction xs)
  case Nil
  then show ?case by simp
next
  case (Cons y ys)
  then show ?case by (cases "P y") (auto simp: filter_empty_conv find_None_iff)
qed

lemma Ensure_second:
  assumes build: "IsBuildPipelineRun tk (pipelineRun a)"
      and prep: "prepareApplicationSnapshotForPipelineRun tk a c
                   (pipelineRun a) (component a) (application a) = (Inr e, cb)"
      and same: "Components d = Components c"
      and ex: "\<exists>x \<in> set (snapshotsOf d (application a)). compareApplicationSnapshots e x"
  shows "ApplicationSnapshots (snd (EnsureApplicationSnapshotExists tk a d))
           = ApplicationSnapshots d"
    and "\<forall>f \<in> set (take 2 (failures d)). f = None \<Longrightarrow>
           fst (EnsureApplicationSnapshotExists tk a d) = ContinueProcessing
           \<and> (\<exists>found. fst (findMatchingApplicationSnapshot tk a d) = Inr (Some found)
                 \<and> found \<in> set (ApplicationSnapshots d)
                 \<and> find (compareApplicationSnapshots e) (snapshotsOf d (application a))
                     = Some found)"
proof -
  obtain r da where fm: "findMatchingApplicationSnapshot tk a d = (r, da)"
    by (cases "findMatchingApplicationSnapshot tk a d")
  from findMatching_result [OF fm] have sa: "sameObjects d da"
    and shape: "case r of Inl err \<Rightarrow> True
             | Inr found \<Rightarrow>
                 \<exists>e' cb'. prepareApplicationSnapshotForPipelineRun tk a d
                           (pipelineRun a) (component a) (application a) = (Inr e', cb')
                   \<and> found = find (compareApplicationSnapshots e') (snapshotsOf d (application a))"
    by simp_all
  from ex obtain y where y: "find (compareApplicationSnapshots e) (snapshotsOf d (application a))
                               = Some y"
    by (cases "find (compareApplicationSnapshots e) (snapshotsOf d (application a))")
       (auto simp: find_None_iff)
  then have ymem: "y \<in> set (ApplicationSnapshots d)" and ymatch: "compareApplicationSnapshots e y"
    by (auto simp: find_Some_iff snapshotsOf_def dest: nth_mem)
  have found: "found = Some y" if "r = Inr found" for found
  proof -
    from shape that obtain e' cb' where
      p': "prepareApplicationSnapshotForPipelineRun tk a d
             (pipelineRun a) (component a) (application a) = (Inr e', cb')"
      and f': "found = find (compareApplicationSnapshots e') (snapshotsOf d (application a))"
      by auto
    from prepare_again(1) [OF prep p' same] have "e' = e" by simp
    with f' y show ?thesis by simp
  qed
  show "ApplicationSnapshots (snd (EnsureApplicationSnapshotExists tk a d))
          = ApplicationSnapshots d"
  proof (cases r)
    case (Inl err)
    with build fm sa show ?thesis
      by (simp add: EnsureApplicationSnapshotExists_def sameObjects_def)
  next
    case (Inr fnd)
    with found have "r = Inr (Some y)" by simp
    with build fm sa show ?thesis
      by (simp add: EnsureApplicationSnapshotExists_def sameObjects_def)
  qed
  show "fst (EnsureApplicationSnapshotExists tk a d) = ContinueProcessing
           \<and> (\<exists>found. fst (findMatchingApplicationSnapshot tk a d) = Inr (Some found)
                 \<and> found \<in> set (ApplicationSnapshots d)
                 \<and> find (compareApplicationSnapshots e) (snapshotsOf d (application a))
                     = Some found)"
    if ok: "\<forall>f \<in> set (take 2 (failures d)). f = None"
  proof -
    from ok have "\<forall>f \<in> set (take (Suc 1) (failures d)). f = None"
      by (simp add: numeral_2_eq_2)
    from client_call_ok [OF this] obtain d1 where
      d1: "client_call d = (None, d1)" "\<forall>f \<in> set (take 1 (failures d1)). f = None"
      by blast
    from d1(2) have "\<forall>f \<in> set (take (Suc 0) (failures d1)). f = None" by simp
    from client_call_ok [OF this] obtain d2 where d2: "client_call d1 = (None, d2)"
      by blast
    obtain r1 c1 where p1: "prepareApplicationSnapshotForPipelineRun tk a d
             (pipelineRun a) (component a) (application a) = (r1, c1)"
      by (cases "prepareApplicationSnapshotForPipelineRun tk a d
             (pipelineRun a) (component a) (application a)")
    from prepare_again(2) [OF prep p1 same] d1(1) have r1: "r1 = Inr e" by simp
    from prepare_result [OF p1] d1(1) have c1: "c1 = d1" by auto
    obtain r2 c2 where l2: "getAllApplicationSnapshots a d1 = (r2, c2)"
      by (cases "getAllApplicationSnapshots a d1")
    from getAllApplicationSnapshots_result [OF l2] d2
    have r2: "r2 = Inr (snapshotsOf d1 (application a))" by auto
    from fm p1 r1 c1 l2 r2 obtain fnd where "r = Inr fnd"
      by (auto simp: findMatchingApplicationSnapshot_def)
    with found have r: "r = Inr (Some y)" by simp
    with build fm have "fst (EnsureApplicationSnapshotExists tk a d) = ContinueProcessing"
      by (simp add: EnsureApplicationSnapshotExists_def)
    moreover from fm r have "fst (findMatchingApplicationSnapshot tk a d) = Inr (Some y)"
      by simp
    ultimately show ?thesis using ymem y by blast
  qed
qed

lemma create_result:
  assumes "createApplicationSnapshotForPipelineRun tk a c pr cmpnt app = (r, c')"
  shows "case r of
           Inl err \<Rightarrow> ApplicationSnapshots c' = ApplicationSnapshots c
         | Inr new \<Rightarrow> ApplicationSnapshots c' = ApplicationSnapshots c @ [new]"
proof -
  obtain r1 c1 where prep: "prepareApplicationSnapshotForPipelineRun tk a c pr cmpnt app = (r1, c1)"
    by (cases "prepareApplicationSnapshotForPipelineRun tk a c pr cmpnt app")
  from prepare_same [OF prep] have s1: "ApplicationSnapshots c1 = ApplicationSnapshots c"
    by (simp add: sameObjects_def)
  show ?thesis
  proof (cases r1)
    case (Inl err)
    with assms prep s1 show ?thesis
      by (auto simp: createApplicationSnapshotForPipelineRun_def)
  next
    case (Inr e)
    with assms prep have "client_Create_ApplicationSnapshot c1 e = (r, c')"
      by (simp add: createApplicationSnapshotForPipelineRun_def)
    from client_Create_result [OF this] s1 show ?thesis
      by (cases r) simp_all
  qed
qed

lemma Ensure_appends:
  "ApplicationSnapshots (snd (EnsureApplicationSnapshotExists tk a c)) = ApplicationSnapshots c
   \<or> (\<exists>new. ApplicationSnapshots (snd (EnsureApplicationSnapshotExists tk a c))
               = ApplicationSnapshots c @ [new])"
proof (cases "IsBuildPipelineRun tk (pipelineRun a)")
  case False
  then show ?thesis by (simp add: EnsureApplicationSnapshotExists_def)
next
  case build: True
  obtain r ca where fm: "findMatchingApplicationSnapshot tk a c = (r, ca)"
    by (cases "findMatchingApplicationSnapshot tk a c")
  from findMatching_result [OF fm] have sa: "ApplicationSnapshots ca = ApplicationSnapshots c"
    by (simp add: sameObjects_def)
  show ?thesis
  proof (cases r)
    case (Inl err)
    with build fm sa show ?thesis by (simp add: EnsureApplicationSnapshotExists_def)
  next
    case (Inr found)
    show ?thesis
    proof (cases found)
      case (Some x)
      with build fm sa Inr show ?thesis by (simp add: EnsureApplicationSnapshotExists_def)
    next
      case None
      obtain r' cc where cr: "createApplicationSnapshotForPipelineRun tk a ca
                       (pipelineRun a) (component a) (application a) = (r', cc)"
        by (cases "createApplicationSnapshotForPipelineRun tk a ca
                       (pipelineRun a) (component a) (application a)")
      note created = create_result [OF cr]
      show ?thesis
      proof (cases r')
        case (Inl err)
        obtain w c3 where upd: "updateStatus a cc = (w, c3)" by (cases "updateStatus a cc")
        from updateStatus_frame [OF upd] created Inl sa
        have "ApplicationSnapshots c3 = ApplicationSnapshots c" by simp
        with build fm Inr None cr Inl upd show ?thesis
          by (simp add: EnsureApplicationSnapshotExists_def)
      next
        case new: (Inr new)
        with created sa have "ApplicationSnapshots cc = ApplicationSnapshots c @ [new]" by simp
        with build fm Inr None cr new show ?thesis
          by (simp add: EnsureApplicationSnapshotExists_def)
      qed
    qed
  qed
qed

lemma Ensure_changed_Continue:
  assumes "ApplicationSnapshots (snd (EnsureApplicationSnapshotExists tk a c)) \<noteq> ApplicationSnapshots c"
  shows "IsBuildPipelineRun tk (pipelineRun a)
         \<and> fst (EnsureApplicationSnapshotExists tk a c) = ContinueProcessing"
proof -
  have build: "IsBuildPipelineRun tk (pipelineRun a)"
  proof (rule ccontr)
    assume "\<not> IsBuildPipelineRun tk (pipelineRun a)"
    with assms show False by (simp add: EnsureApplicationSnapshotExists_def)
  qed
  obtain r ca where fm: "findMatchingApplicationSnapshot tk a c = (r, ca)"
    by (cases "findMatchingApplicationSnapshot tk a c")
  from findMatching_result [OF fm] have sa: "ApplicationSnapshots ca = ApplicationSnapshots c"
    by (simp add: sameObjects_def)
  show ?thesis
  proof (cases r)
    case (Inl err)
    with build fm sa assms show ?thesis by (simp add: EnsureApplicationSnapshotExists_def)
  next
    case (Inr found)
    show ?thesis
    proof (cases found)
      case (Some x)
      with build fm sa Inr show ?thesis by (simp add: EnsureApplicationSnapshotExists_def)
    next
      case None
      obtain r' cc where cr: "createApplicationSnapshotForPipelineRun tk a ca
                       (pipelineRun a) (component a) (application a) = (r', cc)"
        by (cases "createApplicationSnapshotForPipelineRun tk a ca
                       (pipelineRun a) (component a) (application a)")
      note created = create_result [OF cr]
      show ?thesis
      proof (cases r')
        case (Inl err)
        obtain w c3 where upd: "updateStatus a cc = (w, c3)" by (cases "updateStatus a cc")
        from updateStatus_frame [OF upd] created Inl sa
        have "ApplicationSnapshots c3 = ApplicationSnapshots c" by simp
        with build fm Inr None cr Inl upd assms show ?thesis
          by (simp add: EnsureApplicationSnapshotExists_def)
      next
        case new: (Inr new)
        with build fm Inr None cr show ?thesis
          by (simp add: EnsureApplicationSnapshotExists_def)
      qed
    qed
  qed
qed

lemma sample_first_run:
  "EnsureApplicationSnapshotExists sampleTekton (sampleAdapter runBuild) (sampleCluster [runBuild])
     = (ContinueProcessing,
        (sampleCluster [runBuild])
          \<lparr>ApplicationSnapshots := [sampleSnapshot [componentA, componentB], sampleCreated],
           suffixes := []\<rparr>)"
  by (simp add: EnsureApplicationSnapshotExists_def findMatchingApplicationSnapshot_def
        createApplicationSnapshotForPipelineRun_def prepareApplicationSnapshotForPipelineRun_def
        getAllApplicationComponents_def getAllApplicationSnapshots_def
        client_List_Components_def client_List_ApplicationSnapshots_def
        client_Create_ApplicationSnapshot_def client_call_def
        getImagePullSpecFromPipelineRun_def Split_def compareApplicationSnapshots_def
        sampleTekton_def sampleAdapter_def sampleCluster_def sampleComponent_def
        sampleSnapshot_def componentA_def componentB_def runBuild_def samplePipelineRun_def
        sampleCreated_def Let_def)


text \<open>
  C7. Run the operation on a cluster, then again on the cluster the first run left,
  whatever calls fail and whatever name suffixes come the second time. Over the two runs
  at most one snapshot is created. When the PipelineRun is a build and the first run
  returned Continue, the second run creates no snapshot; if its first two calls (the list
  of the Components and the list of the snapshots) succeed, it finds a stored snapshot
  that matches and returns Continue; and if the first run created a snapshot, that
  snapshot is the only snapshot of the Application that matches the desired combination,
  and it is the match that the second run finds.
\<close>

theorem EnsureApplicationSnapshotExists_twice:
  assumes first: "EnsureApplicationSnapshotExists tk a c = (r1, c1)"
  shows "length (ApplicationSnapshots
           (snd (EnsureApplicationSnapshotExists tk a (c1\<lparr>failures := fs, suffixes := ss\<rparr>))))
           \<le> length (ApplicationSnapshots c) + 1
         \<and> (IsBuildPipelineRun tk (pipelineRun a) \<and> r1 = ContinueProcessing \<longrightarrow>
              ApplicationSnapshots
                (snd (EnsureApplicationSnapshotExists tk a (c1\<lparr>failures := fs, suffixes := ss\<rparr>)))
                = ApplicationSnapshots c1
              \<and> ((\<forall>f \<in> set (take 2 fs). f = None) \<longrightarrow>
                    fst (EnsureApplicationSnapshotExists tk a (c1\<lparr>failures := fs, suffixes := ss\<rparr>))
                      = ContinueProcessing
                    \<and> (\<exists>found. fst (findMatchingApplicationSnapshot tk a
                                        (c1\<lparr>failures := fs, suffixes := ss\<rparr>)) = Inr (Some found)
                          \<and> found \<in> set (ApplicationSnapshots c1)))
              \<and> (ApplicationSnapshots c1 = ApplicationSnapshots c
                   \<or> (\<exists>e new. fst (prepareApplicationSnapshotForPipelineRun tk a c
                                      (pipelineRun a) (component a) (application a)) = Inr e
                         \<and> ApplicationSnapshots c1 = ApplicationSnapshots c @ [new]
                         \<and> filter (compareApplicationSnapshots e) (snapshotsOf c1 (application a))
                             = [new]
                         \<and> ((\<forall>f \<in> set (take 2 fs). f = None) \<longrightarrow>
                               fst (findMatchingApplicationSnapshot tk a
                                      (c1\<lparr>failures := fs, suffixes := ss\<rparr>))
                                 = Inr (Some new)))))"
proof -
  let ?d = "c1\<lparr>failures := fs, suffixes := ss\<rparr>"
  let ?snaps2 = "ApplicationSnapshots (snd (EnsureApplicationSnapshotExists tk a ?d))"
  have continue: "?snaps2 = ApplicationSnapshots c1
              \<and> ((\<forall>f \<in> set (take 2 fs). f = None) \<longrightarrow>
                    fst (EnsureApplicationSnapshotExists tk a ?d) = ContinueProcessing
                    \<and> (\<exists>found. fst (findMatchingApplicationSnapshot tk a ?d) = Inr (Some found)
                          \<and> found \<in> set (ApplicationSnapshots c1)))
              \<and> (ApplicationSnapshots c1 = ApplicationSnapshots c
                   \<or> (\<exists>e new. fst (prepareApplicationSnapshotForPipelineRun tk a c
                                      (pipelineRun a) (component a) (application a)) = Inr e
                         \<and> ApplicationSnapshots c1 = ApplicationSnapshots c @ [new]
                         \<and> filter (compareApplicationSnapshots e) (snapshotsOf c1 (application a))
                             = [new]
                         \<and> ((\<forall>f \<in> set (take 2 fs). f = None) \<longrightarrow>
                               fst (findMatchingApplicationSnapshot tk a ?d) = Inr (Some new))))"
    if build: "IsBuildPipelineRun tk (pipelineRun a)" and r1: "r1 = ContinueProcessing"
  proof -
    from first r1 have first': "EnsureApplicationSnapshotExists tk a c = (ContinueProcessing, c1)"
      by simp
    from Ensure_first [OF build first'] obtain e cb where
      prep: "prepareApplicationSnapshotForPipelineRun tk a c
               (pipelineRun a) (component a) (application a) = (Inr e, cb)"
      and comps: "Components c1 = Components c"
      and ex: "\<exists>x \<in> set (snapshotsOf c1 (application a)). compareApplicationSnapshots e x"
      and one: "ApplicationSnapshots c1 = ApplicationSnapshots c
                  \<or> (\<exists>new. ApplicationSnapshots c1 = ApplicationSnapshots c @ [new]
                        \<and> filter (compareApplicationSnapshots e) (snapshotsOf c1 (application a))
                            = [new])"
      by blast
    have same: "Components ?d = Components c" using comps by simp
    have ex': "\<exists>x \<in> set (snapshotsOf ?d (application a)). compareApplicationSnapshots e x"
      using ex by (simp add: snapshotsOf_def)
    have no_create: "?snaps2 = ApplicationSnapshots c1"
      using Ensure_second(1) [OF build prep same ex'] by simp
    have finds: "fst (EnsureApplicationSnapshotExists tk a ?d) = ContinueProcessing
                 \<and> (\<exists>found. fst (findMatchingApplicationSnapshot tk a ?d) = Inr (Some found)
                       \<and> found \<in> set (ApplicationSnapshots c1)
                       \<and> find (compareApplicationSnapshots e) (snapshotsOf c1 (application a))
                           = Some found)"
      if "\<forall>f \<in> set (take 2 fs). f = None"
    proof -
      have "snapshotsOf ?d (application a) = snapshotsOf c1 (application a)"
        by (simp add: snapshotsOf_def)
      with Ensure_second(2) [OF build prep same ex'] that show ?thesis by simp
    qed
    have one': "ApplicationSnapshots c1 = ApplicationSnapshots c
                \<or> (\<exists>e new. fst (prepareApplicationSnapshotForPipelineRun tk a c
                                   (pipelineRun a) (component a) (application a)) = Inr e
                      \<and> ApplicationSnapshots c1 = ApplicationSnapshots c @ [new]
                      \<and> filter (compareApplicationSnapshots e) (snapshotsOf c1 (application a))
                          = [new]
                      \<and> ((\<forall>f \<in> set (take 2 fs). f = None) \<longrightarrow>
                            fst (findMatchingApplicationSnapshot tk a ?d) = Inr (Some new)))"
    proof (cases "ApplicationSnapshots c1 = ApplicationSnapshots c")
      case True
      then show ?thesis by simp
    next
      case False
      with one obtain new where
        new: "ApplicationSnapshots c1 = ApplicationSnapshots c @ [new]"
             "filter (compareApplicationSnapshots e) (snapshotsOf c1 (application a)) = [new]"
        by auto
      have "fst (findMatchingApplicationSnapshot tk a ?d) = Inr (Some new)"
        if ok: "\<forall>f \<in> set (take 2 fs). f = None"
      proof -
        from finds [OF ok] obtain found where
          found: "fst (findMatchingApplicationSnapshot tk a ?d) = Inr (Some found)"
                 "find (compareApplicationSnapshots e) (snapshotsOf c1 (application a)) = Some found"
          by blast
        from find_filter_single [OF new(2)] found(2) have "found = new" by simp
        with found(1) show ?thesis by simp
      qed
      with new prep show ?thesis by auto
    qed
    from no_create finds one' show ?thesis by (intro conjI impI) auto
  qed
  have c1: "c1 = snd (EnsureApplicationSnapshotExists tk a c)"
    and r1: "r1 = fst (EnsureApplicationSnapshotExists tk a c)"
    using first by simp_all
  have second: "?snaps2 = ApplicationSnapshots c1
                \<or> (\<exists>new. ?snaps2 = ApplicationSnapshots c1 @ [new])"
    using Ensure_appends [of tk a ?d] by simp
  have bound: "length ?snaps2 \<le> length (ApplicationSnapshots c) + 1"
  proof (cases "ApplicationSnapshots c1 = ApplicationSnapshots c")
    case True
    with second show ?thesis by auto
  next
    case False
    with Ensure_changed_Continue [of tk a c] c1 r1
    have "IsBuildPipelineRun tk (pipelineRun a)" "r1 = ContinueProcessing" by simp_all
    from continue [OF this] have "?snaps2 = ApplicationSnapshots c1" by simp
    moreover from Ensure_appends [of tk a c] c1 False
    obtain new where "ApplicationSnapshots c1 = ApplicationSnapshots c @ [new]" by auto
    ultimately show ?thesis by simp
  qed
  from bound continue show ?thesis by (intro conjI impI) simp_all
qed

theorem EnsureApplicationSnapshotExists_twice_witness:
  "IsBuildPipelineRun sampleTekton (pipelineRun (sampleAdapter runBuild))
   \<and> EnsureApplicationSnapshotExists sampleTekton (sampleAdapter runBuild)
        (sampleCluster [runBuild])
     = (ContinueProcessing,
        (sampleCluster [runBuild])
          \<lparr>ApplicationSnapshots := [sampleSnapshot [componentA, componentB], sampleCreated],
           suffixes := []\<rparr>)
   \<and> fst (EnsureApplicationSnapshotExists sampleTekton (sampleAdapter runBuild)
        ((sampleCluster [runBuild])
          \<lparr>ApplicationSnapshots := [sampleSnapshot [componentA, componentB], sampleCreated],
           suffixes := [], failures := [], suffixes := [''def'']\<rparr>))
     = ContinueProcessing
   \<and> ApplicationSnapshots
       (snd (EnsureApplicationSnapshotExists sampleTekton (sampleAdapter runBuild)
        ((sampleCluster [runBuild])
          \<lparr>ApplicationSnapshots := [sampleSnapshot [componentA, componentB], sampleCreated],
           suffixes := [], failures := [], suffixes := [''def'']\<rparr>)))
     = [sampleSnapshot [componentA, componentB], sampleCreated]"
proof -
  have build: "IsBuildPipelineRun sampleTekton (pipelineRun (sampleAdapter runBuild))"
    by (simp add: sampleTekton_def sampleAdapter_def runBuild_def samplePipelineRun_def)
  from EnsureApplicationSnapshotExists_twice
         [OF sample_first_run, where fs = "[]" and ss = "[''def'']"]
  show ?thesis using build sample_first_run by simp
qed

end
